theory Spec2Isabelle
  imports Main "HOL-Library.AList"
begin

section \<open>Python text and the primitives the program calls\<close>

text \<open>
  A Python \<open>str\<close> is a sequence of Unicode code points, modelled as a list of naturals;
  the content of a file is a sequence of bytes, modelled as a list of \<open>char\<close> (8 bits each).
  \<open>ustr\<close> turns an ASCII literal into the \<open>str\<close> of the same characters.
\<close>

type_synonym str = "nat list"
type_synonym bytes = "char list"

definition ustr :: "string \<Rightarrow> str" where
  "ustr s = map of_char s"

text \<open>
  What the program takes from Python and the platform, and is not written in \<open>UI.py\<close>, is a
  parameter of the model:
  \<^item> the Unicode database beyond ASCII: which code points are white space (\<open>str.isspace\<close>,
    used by \<open>strip\<close> and by \<open>\s\<close>), which are decimal digits (\<open>\d\<close>), the full upper-case
    mapping of a code point and the lower-case mapping of the code point at a position of a
    string (lower-casing depends on the context for the Greek sigma);
  \<^item> \<open>os.linesep\<close>, which a text-mode write puts in place of every line feed;
  \<^item> floating point: \<open>float\<close> of a string (\<open>None\<close> is \<open>ValueError\<close>) and of an integer
    (\<open>None\<close> is \<open>OverflowError\<close>), the float \<open>0.0\<close>, \<open>round(v * coef, 6)\<close>, and the text
    an f-string writes for a float (always ASCII).
  On ASCII code points the functions below are defined outright, so that every theorem holds
  for every such environment, the one of the real interpreter among them.
\<close>

record 'f pyenv =
  uspace :: "nat \<Rightarrow> bool"
  udecimal :: "nat \<Rightarrow> bool"
  uupper :: "nat \<Rightarrow> str"
  ulower :: "str \<Rightarrow> nat \<Rightarrow> str"
  linesep :: str
  float_of_str :: "str \<Rightarrow> 'f option"
  float_of_int :: "int \<Rightarrow> 'f option"
  float_zero :: 'f
  scale_round :: "'f \<Rightarrow> 'f \<Rightarrow> 'f"
  fmt :: "'f \<Rightarrow> string"

definition isspace :: "'f pyenv \<Rightarrow> nat \<Rightarrow> bool" where
  "isspace E c = (if c < 128 then (9 \<le> c \<and> c \<le> 13) \<or> (28 \<le> c \<and> c \<le> 32) else uspace E c)"

text \<open>No decimal digit of Unicode is white space; the definition says so for every environment.\<close>

definition isdecimal :: "'f pyenv \<Rightarrow> nat \<Rightarrow> bool" where
  "isdecimal E c = (if c < 128 then 48 \<le> c \<and> c \<le> 57 else udecimal E c \<and> \<not> uspace E c)"

definition upper :: "'f pyenv \<Rightarrow> str \<Rightarrow> str" where
  "upper E s = concat (map (\<lambda>c. if c < 128 then [if 97 \<le> c \<and> c \<le> 122 then c - 32 else c]
                                  else uupper E c) s)"

definition lower :: "'f pyenv \<Rightarrow> str \<Rightarrow> str" where
  "lower E s = concat (map (\<lambda>i. if s ! i < 128
                                  then [if 65 \<le> s ! i \<and> s ! i \<le> 90 then s ! i + 32 else s ! i]
                                  else ulower E s i) [0..<length s])"

definition strip :: "'f pyenv \<Rightarrow> str \<Rightarrow> str" where
  "strip E s = rev (dropWhile (isspace E) (rev (dropWhile (isspace E) s)))"

text \<open>\<open>s.rstrip('\r\n')\<close>: trailing carriage returns and line feeds are removed.\<close>

definition rstrip_crlf :: "str \<Rightarrow> str" where
  "rstrip_crlf s = rev (dropWhile (\<lambda>c. c = 13 \<or> c = 10) (rev s))"

text \<open>\<open>s.replace(c, "")\<close> for a one-character \<open>c\<close>.\<close>

definition remove_char :: "nat \<Rightarrow> str \<Rightarrow> str" where
  "remove_char c s = filter (\<lambda>x. x \<noteq> c) s"

text \<open>\<open>s.split(c)\<close> for a one-character separator: never empty, one more part than separators.\<close>

fun split_on :: "nat \<Rightarrow> str \<Rightarrow> str list" where
  "split_on c [] = [[]]"
| "split_on c (x # xs) =
     (if x = c then [] # split_on c xs
      else (case split_on c xs of [] \<Rightarrow> [[x]] | p # ps \<Rightarrow> (x # p) # ps))"

text \<open>\<open>s.split(c, 1)\<close>: at most one split, at the first separator.\<close>

definition split_once :: "nat \<Rightarrow> str \<Rightarrow> str list" where
  "split_once c s =
     (if c \<in> set s then [takeWhile (\<lambda>x. x \<noteq> c) s, tl (dropWhile (\<lambda>x. x \<noteq> c) s)] else [s])"

fun startswith :: "str \<Rightarrow> str \<Rightarrow> bool" where
  "startswith s [] = True"
| "startswith [] (p # ps) = False"
| "startswith (x # xs) (p # ps) = (x = p \<and> startswith xs ps)"

text \<open>\<open>sub in s\<close>: \<open>sub\<close> occurs in \<open>s\<close> as a contiguous run.\<close>

fun contains :: "str \<Rightarrow> str \<Rightarrow> bool" where
  "contains [] sub = (sub = [])"
| "contains (x # xs) sub = (startswith (x # xs) sub \<or> contains xs sub)"

text \<open>\<open>s.find(c)\<close> where \<open>c\<close> occurs in \<open>s\<close>: the index of the first occurrence.\<close>

definition find_char :: "nat \<Rightarrow> str \<Rightarrow> nat" where
  "find_char c s = length (takeWhile (\<lambda>x. x \<noteq> c) s)"

section \<open>The numeric pattern of the patcher\<close>

text \<open>
  \<^verbatim>\<open>^(\s*)([-+]?\d*\.?\d+(?:[Ee][-+]?\d+)?)(\s*)([,;].*)$\<close>, matched at the start of a string.
  The number can hold neither white space nor a delimiter and must be followed by one of
  them, so group 1 is the leading run of white space, group 2 the run up to the next white
  space or delimiter, which has to be a numeric literal as a whole, group 3 the run of white
  space after it, and group 4 the rest, which has to begin with a comma or a semicolon. The
  dot matches anything but a line feed, and \<open>$\<close> matches at the end or before a last line feed.
  The result is the four groups.
\<close>

definition is_exponent :: "'f pyenv \<Rightarrow> str \<Rightarrow> bool" where
  "is_exponent E r =
     (case r of [] \<Rightarrow> False
      | e # r' \<Rightarrow> (e = 69 \<or> e = 101) \<and>
          (let d = (case r' of [] \<Rightarrow> [] | c # r'' \<Rightarrow> if c = 43 \<or> c = 45 then r'' else r')
           in d \<noteq> [] \<and> list_all (isdecimal E) d))"

definition is_number :: "'f pyenv \<Rightarrow> str \<Rightarrow> bool" where
  "is_number E tok =
     (let t = (case tok of [] \<Rightarrow> [] | c # r \<Rightarrow> if c = 43 \<or> c = 45 then r else tok);
          d1 = takeWhile (isdecimal E) t;
          r1 = dropWhile (isdecimal E) t
      in case r1 of [] \<Rightarrow> d1 \<noteq> []
         | c # r \<Rightarrow>
             if c = 46
             then (let d2 = takeWhile (isdecimal E) r; r2 = dropWhile (isdecimal E) r
                   in d2 \<noteq> [] \<and> (r2 = [] \<or> is_exponent E r2))
             else d1 \<noteq> [] \<and> is_exponent E r1)"

definition re_match :: "'f pyenv \<Rightarrow> str \<Rightarrow> (str \<times> str \<times> str \<times> str) option" where
  "re_match E s =
     (let g1 = takeWhile (isspace E) s;
          r1 = dropWhile (isspace E) s;
          g2 = takeWhile (\<lambda>c. \<not> isspace E c \<and> c \<noteq> 44 \<and> c \<noteq> 59) r1;
          r2 = dropWhile (\<lambda>c. \<not> isspace E c \<and> c \<noteq> 44 \<and> c \<noteq> 59) r1;
          g3 = takeWhile (isspace E) r2;
          r3 = dropWhile (isspace E) r2;
          g4 = (if r3 \<noteq> [] \<and> last r3 = 10 then butlast r3 else r3)
      in if is_number E g2 \<and> (case g4 of [] \<Rightarrow> False | c # _ \<Rightarrow> c = 44 \<or> c = 59) \<and> 10 \<notin> set g4
         then Some (g1, g2, g3, g4) else None)"

section \<open>The Update Set\<close>

text \<open>
  One entry of \<open>target_updates\<close>: the dictionary with the keys \<open>type\<close>, \<open>name\<close>, \<open>field\<close> and
  \<open>value\<close>. \<open>updates_map\<close> is a dictionary of dictionaries of dictionaries; a Python dictionary
  keeps its keys in the order of their first insertion, which is what \<open>AList.update\<close> does.
\<close>

record 'f item =
  item_type :: str
  item_name :: str
  item_field :: str
  item_value :: 'f

type_synonym 'f updates_map = "(str \<times> (str \<times> (str \<times> 'f) list) list) list"

definition add_update :: "'f pyenv \<Rightarrow> 'f updates_map \<Rightarrow> 'f item \<Rightarrow> 'f updates_map" where
  "add_update E m item =
     (let t = upper E (item_type item); n = upper E (item_name item); f = upper E (item_field item);
          tm = (case map_of m t of None \<Rightarrow> [] | Some x \<Rightarrow> x);
          nm = (case map_of tm n of None \<Rightarrow> [] | Some x \<Rightarrow> x)
      in AList.update t (AList.update n (AList.update f (item_value item) nm) tm) m)"

definition build_updates_map :: "'f pyenv \<Rightarrow> 'f item list \<Rightarrow> 'f updates_map" where
  "build_updates_map E target_updates = foldl (add_update E) [] target_updates"

section \<open>The line loop of \<open>_save_with_text_replacement\<close>\<close>

record pstate =
  current_type :: "str option"
  current_name :: "str option"
  in_obj :: bool

definition init_state :: pstate where
  "init_state = \<lparr>current_type = None, current_name = None, in_obj = False\<rparr>"

text \<open>Lines 229 to 238: a line outside a block may open one.\<close>

definition open_block :: "'f pyenv \<Rightarrow> 'f updates_map \<Rightarrow> pstate \<Rightarrow> str \<Rightarrow> pstate" where
  "open_block E updates_map st line =
     (let stripped = strip E line
      in if \<not> in_obj st \<and> stripped \<noteq> [] \<and> \<not> startswith stripped (ustr ''!'')
         then (let parts = split_on 44 (hd (split_on 33 stripped));
                   possible_type = upper E (strip E (remove_char 59 (hd parts)))
               in if map_of updates_map possible_type \<noteq> None
                  then st\<lparr>current_type := Some possible_type, in_obj := True,
                          current_name := Some (ustr ''N/A'')\<rparr>
                  else if 44 \<in> set stripped \<or> 59 \<in> set stripped
                  then st\<lparr>in_obj := True, current_type := Some (ustr ''UNKNOWN'')\<rparr>
                  else st)
         else st)"

text \<open>Lines 241 to 244: a semicolon before the comment closes the block; the name is captured.\<close>

definition close_and_name :: "'f pyenv \<Rightarrow> pstate \<Rightarrow> str \<Rightarrow> pstate" where
  "close_and_name E st line =
     (let st1 = (if 59 \<in> set (hd (split_on 33 line)) then st\<lparr>in_obj := False\<rparr> else st)
      in if contains line (ustr ''!- Name'')
         then st1\<lparr>current_name :=
                Some (upper E (strip E (remove_char 59 (remove_char 44 (hd (split_on 33 line))))))\<rparr>
         else st1)"

text \<open>
  Lines 248 and 249: the comment is what stands between the first and the second exclamation
  mark, stripped; the field label read from it is the comment without a leading \<open>- \<close>,
  stripped again, and \<open>field_key\<close> is that label in upper case (both branches of the
  conditional expression end in \<open>upper\<close>).
\<close>

definition comment_token :: "'f pyenv \<Rightarrow> str \<Rightarrow> str" where
  "comment_token E line =
     (let comment = strip E (split_on 33 line ! 1)
      in if startswith comment (ustr ''- '') then strip E (drop 2 comment) else comment)"

definition field_key_of :: "'f pyenv \<Rightarrow> str \<Rightarrow> str" where
  "field_key_of E line = upper E (comment_token E line)"

definition norm_label :: "str \<Rightarrow> str" where
  "norm_label s = remove_char 95 (remove_char 32 s)"

text \<open>Lines 253 to 257: the first pending label, in the order of the dictionary, that occurs in
  the field label of the line, both without spaces and underscores.\<close>

fun matched_val :: "(str \<times> 'f) list \<Rightarrow> str \<Rightarrow> 'f option" where
  "matched_val [] field_key = None"
| "matched_val ((tk, tv) # rest) field_key =
     (if contains (norm_label field_key) (norm_label tk) then Some tv
      else matched_val rest field_key)"

definition target_fields :: "'f updates_map \<Rightarrow> pstate \<Rightarrow> (str \<times> 'f) list" where
  "target_fields updates_map st =
     (case current_type st of None \<Rightarrow> []
      | Some t \<Rightarrow> (case map_of updates_map t of None \<Rightarrow> []
          | Some names \<Rightarrow> (case current_name st of None \<Rightarrow> []
              | Some n \<Rightarrow> (case map_of names n of None \<Rightarrow> [] | Some fs \<Rightarrow> fs))))"

text \<open>Lines 259 to 271: the new text of a matched line, \<open>None\<close> where no branch assigns it.\<close>

definition rewrite_line :: "'f pyenv \<Rightarrow> 'f \<Rightarrow> str \<Rightarrow> str option" where
  "rewrite_line E matched line =
     (let idx_bang = find_char 33 line;
          content = take idx_bang line;
          comment_part = drop idx_bang line
      in case re_match E (rstrip_crlf content) of
           Some (g1, g2, g3, g4) \<Rightarrow> Some (g1 @ ustr (fmt E matched) @ g3 @ g4 @ comment_part)
         | None \<Rightarrow>
             (let parts = split_once 44 content
              in if length parts = 2
                 then Some (ustr ''    '' @ ustr (fmt E matched) @ ustr '','' @ parts ! 1 @ comment_part)
                 else None))"

text \<open>Lines 247 to 271: \<open>Some\<close> of the new line where the line is assigned, \<open>None\<close> otherwise.\<close>

definition substitute :: "'f pyenv \<Rightarrow> 'f updates_map \<Rightarrow> pstate \<Rightarrow> str \<Rightarrow> str option" where
  "substitute E updates_map st line =
     (if (case current_type st of None \<Rightarrow> False | Some t \<Rightarrow> map_of updates_map t \<noteq> None)
         \<and> 33 \<in> set line
      then (case matched_val (target_fields updates_map st) (field_key_of E line) of
              None \<Rightarrow> None
            | Some matched \<Rightarrow> rewrite_line E matched line)
      else None)"

text \<open>
  One turn of the loop: the line appended to \<open>new_lines\<close>, the state after it, and whether a
  substitution was performed on the line (the program keeps no such flag; the model returns
  it so that the theorems can speak of the lines that were substituted).
\<close>

definition patch_line ::
  "'f pyenv \<Rightarrow> 'f updates_map \<Rightarrow> pstate \<Rightarrow> str \<Rightarrow> str \<times> pstate \<times> bool" where
  "patch_line E updates_map st line =
     (let st1 = open_block E updates_map st line
      in if in_obj st1
         then (let st2 = close_and_name E st1 line
               in case substitute E updates_map st2 line of
                    Some l \<Rightarrow> (l, st2, True)
                  | None \<Rightarrow> (line, st2, False))
         else (line, st1, False))"

fun patch_lines :: "'f pyenv \<Rightarrow> 'f updates_map \<Rightarrow> pstate \<Rightarrow> str list \<Rightarrow> (str \<times> bool) list" where
  "patch_lines E updates_map st [] = []"
| "patch_lines E updates_map st (line # lines) =
     (case patch_line E updates_map st line of
        (l, st', b) \<Rightarrow> (l, b) # patch_lines E updates_map st' lines)"

definition new_lines :: "'f pyenv \<Rightarrow> 'f item list \<Rightarrow> str list \<Rightarrow> str list" where
  "new_lines E target_updates lines =
     map fst (patch_lines E (build_updates_map E target_updates) init_state lines)"

definition substitutions :: "'f pyenv \<Rightarrow> 'f item list \<Rightarrow> str list \<Rightarrow> nat" where
  "substitutions E target_updates lines =
     length (filter snd (patch_lines E (build_updates_map E target_updates) init_state lines))"

section \<open>Reading and writing the document\<close>

text \<open>
  Lines 208 to 211 and 275 to 276. The file is opened in text mode with the default
  \<open>newline\<close>: on reading, \<open>\r\n\<close> and \<open>\r\<close> become \<open>\n\<close> and \<open>readlines\<close> cuts after every
  \<open>\n\<close>; on writing, every \<open>\n\<close> becomes \<open>os.linesep\<close>. The strict UTF-8 codec refuses
  over-long forms, surrogates and code points above U+10FFFF; Latin-1 maps every byte to the
  code point of the same number.
\<close>

definition is_cont :: "nat \<Rightarrow> bool" where
  "is_cont b = (128 \<le> b \<and> b < 192)"

fun utf8_dec :: "nat list \<Rightarrow> str option" where
  "utf8_dec [] = Some []"
| "utf8_dec (b0 # bs) =
     (if b0 < 128 then map_option ((#) b0) (utf8_dec bs)
      else (case bs of [] \<Rightarrow> None
        | b1 # r1 \<Rightarrow>
            if 194 \<le> b0 \<and> b0 < 224
            then (if is_cont b1
                  then map_option ((#) ((b0 - 192) * 64 + (b1 - 128))) (utf8_dec r1)
                  else None)
            else (case r1 of [] \<Rightarrow> None
              | b2 # r2 \<Rightarrow>
                  if 224 \<le> b0 \<and> b0 < 240
                  then (let cp = (b0 - 224) * 4096 + (b1 - 128) * 64 + (b2 - 128)
                        in if is_cont b1 \<and> is_cont b2 \<and> 2048 \<le> cp
                              \<and> \<not> (55296 \<le> cp \<and> cp < 57344)
                           then map_option ((#) cp) (utf8_dec r2) else None)
                  else (case r2 of [] \<Rightarrow> None
                    | b3 # r3 \<Rightarrow>
                        if 240 \<le> b0 \<and> b0 < 245
                        then (let cp = (b0 - 240) * 262144 + (b1 - 128) * 4096
                                         + (b2 - 128) * 64 + (b3 - 128)
                              in if is_cont b1 \<and> is_cont b2 \<and> is_cont b3
                                    \<and> 65536 \<le> cp \<and> cp < 1114112
                                 then map_option ((#) cp) (utf8_dec r3) else None)
                        else None))))"

definition utf8_decode :: "bytes \<Rightarrow> str option" where
  "utf8_decode bs = utf8_dec (map of_char bs)"

definition latin1_decode :: "bytes \<Rightarrow> str" where
  "latin1_decode bs = map of_char bs"

definition utf8_enc1 :: "nat \<Rightarrow> nat list option" where
  "utf8_enc1 cp =
     (if cp < 128 then Some [cp]
      else if cp < 2048 then Some [192 + cp div 64, 128 + cp mod 64]
      else if cp < 65536
      then (if 55296 \<le> cp \<and> cp < 57344 then None
            else Some [224 + cp div 4096, 128 + cp div 64 mod 64, 128 + cp mod 64])
      else if cp < 1114112
      then Some [240 + cp div 262144, 128 + cp div 4096 mod 64, 128 + cp div 64 mod 64,
                 128 + cp mod 64]
      else None)"

fun utf8_encode :: "str \<Rightarrow> bytes option" where
  "utf8_encode [] = Some []"
| "utf8_encode (c # cs) =
     (case utf8_enc1 c of None \<Rightarrow> None
      | Some bs \<Rightarrow> map_option ((@) (map char_of bs)) (utf8_encode cs))"

definition latin1_encode :: "str \<Rightarrow> bytes option" where
  "latin1_encode s = (if list_all (\<lambda>c. c < 256) s then Some (map char_of s) else None)"

datatype encoding = UTF8 | Latin1

text \<open>\<open>str.encode\<close> under either codec; the program itself only ever encodes as UTF-8.\<close>

definition encode :: "encoding \<Rightarrow> str \<Rightarrow> bytes option" where
  "encode enc s = (case enc of UTF8 \<Rightarrow> utf8_encode s | Latin1 \<Rightarrow> latin1_encode s)"

fun universal_newlines :: "str \<Rightarrow> str" where
  "universal_newlines [] = []"
| "universal_newlines [c] = [if c = 13 then 10 else c]"
| "universal_newlines (c # d # cs) =
     (if c = 13 \<and> d = 10 then 10 # universal_newlines cs
      else if c = 13 then 10 # universal_newlines (d # cs)
      else c # universal_newlines (d # cs))"

fun split_lines :: "str \<Rightarrow> str list" where
  "split_lines [] = []"
| "split_lines (c # cs) =
     (if c = 10 then [10] # split_lines cs
      else (case split_lines cs of [] \<Rightarrow> [[c]] | l # ls \<Rightarrow> (c # l) # ls))"

definition readlines :: "str \<Rightarrow> str list" where
  "readlines s = split_lines (universal_newlines s)"

text \<open>Lines 208 to 211: UTF-8 first, Latin-1 when that fails; the encoding that was used.\<close>

definition read_source :: "bytes \<Rightarrow> encoding \<times> str list" where
  "read_source file =
     (case utf8_decode file of
        Some s \<Rightarrow> (UTF8, readlines s)
      | None \<Rightarrow> (Latin1, readlines (latin1_decode file)))"

definition write_newlines :: "'f pyenv \<Rightarrow> str \<Rightarrow> str" where
  "write_newlines E s = concat (map (\<lambda>c. if c = 10 then linesep E else [c]) s)"

datatype exn = ValueError | TypeError | OverflowError | UnicodeEncodeError

text \<open>Lines 275 and 276: the lines are written one after the other, encoded as UTF-8.\<close>

definition write_output :: "'f pyenv \<Rightarrow> str list \<Rightarrow> exn + bytes" where
  "write_output E lines =
     (case utf8_encode (write_newlines E (concat lines)) of
        None \<Rightarrow> Inl UnicodeEncodeError
      | Some bs \<Rightarrow> Inr bs)"

text \<open>\<open>_save_with_text_replacement\<close>: from the bytes of the source file to those of the output.\<close>

definition save_with_text_replacement :: "'f pyenv \<Rightarrow> 'f item list \<Rightarrow> bytes \<Rightarrow> exn + bytes" where
  "save_with_text_replacement E target_updates file =
     write_output E (new_lines E target_updates (snd (read_source file)))"

section \<open>The parsed model and \<open>execute_modification\<close>\<close>

text \<open>
  The parsed model comes from the eppy library: an object has its field names, its field
  values, the \<open>Name\<close> attribute (a string, when it has one) and the attributes that \<open>getattr\<close>
  reads; \<open>idfobjects\<close> maps an object type to its instances. A value is \<open>None\<close>, a string, an
  integer or a float.
\<close>

datatype 'f pyval = PNone | PStr str | PInt int | PFloat 'f

record 'f idfobject =
  obj_name :: "str option"
  fieldnames :: "str list"
  fieldvalues :: "'f pyval list"
  attrs :: "str \<Rightarrow> 'f pyval option"

type_synonym 'f idfobjects = "str \<Rightarrow> 'f idfobject list option"

record 'f modification =
  object_type :: str
  mod_fields :: "str list"
  coef :: 'f

definition py_float :: "'f pyenv \<Rightarrow> 'f pyval \<Rightarrow> exn + 'f" where
  "py_float E v =
     (case v of
        PNone \<Rightarrow> Inl TypeError
      | PStr s \<Rightarrow> (case float_of_str E s of None \<Rightarrow> Inl ValueError | Some x \<Rightarrow> Inr x)
      | PInt i \<Rightarrow> (case float_of_int E i of None \<Rightarrow> Inl OverflowError | Some x \<Rightarrow> Inr x)
      | PFloat x \<Rightarrow> Inr x)"

text \<open>Lines 180 to 184: the first field name equal to the wanted one up to case, \<open>_\<close> and space.\<close>

definition norm_field_of :: "'f pyenv \<Rightarrow> str \<Rightarrow> str" where
  "norm_field_of E s = remove_char 32 (remove_char 95 (lower E s))"

definition find_target_attr :: "'f pyenv \<Rightarrow> str list \<Rightarrow> str \<Rightarrow> str option" where
  "find_target_attr E valid_attrs field =
     find (\<lambda>attr. norm_field_of E attr = norm_field_of E (strip E field)) valid_attrs"

text \<open>
  Lines 175 to 200, one field of one object: the requests appended to \<open>target_updates\<close> (none
  or one), or the exception that leaves the function. \<open>ValueError\<close> is caught and skips the
  field; an empty string is not converted: it counts as \<open>0.0\<close>.
\<close>

definition field_update ::
  "'f pyenv \<Rightarrow> str \<Rightarrow> 'f idfobject \<Rightarrow> 'f \<Rightarrow> str \<Rightarrow> exn + 'f item list" where
  "field_update E obj_type obj c field =
     (case find_target_attr E (fieldnames obj) field of
        None \<Rightarrow> Inr []
      | Some target_attr \<Rightarrow>
          if target_attr = [] then Inr []
          else (let old_val = (case attrs obj target_attr of None \<Rightarrow> PInt 0 | Some v \<Rightarrow> v)
                in case (if old_val \<noteq> PStr [] then py_float E old_val else Inr (float_zero E)) of
                     Inl ValueError \<Rightarrow> Inr []
                   | Inl e \<Rightarrow> Inl e
                   | Inr val_num \<Rightarrow>
                       Inr [\<lparr>item_type = obj_type,
                             item_name = (case obj_name obj of None \<Rightarrow> ustr ''N/A'' | Some n \<Rightarrow> n),
                             item_field = target_attr,
                             item_value = scale_round E val_num c\<rparr>]))"

fun fields_loop ::
  "'f pyenv \<Rightarrow> str \<Rightarrow> 'f idfobject \<Rightarrow> 'f \<Rightarrow> str list \<Rightarrow> 'f item list \<Rightarrow> exn + 'f item list" where
  "fields_loop E obj_type obj c [] target_updates = Inr target_updates"
| "fields_loop E obj_type obj c (field # rest) target_updates =
     (case field_update E obj_type obj c field of
        Inl e \<Rightarrow> Inl e
      | Inr new \<Rightarrow> fields_loop E obj_type obj c rest (target_updates @ new))"

fun objects_loop ::
  "'f pyenv \<Rightarrow> str \<Rightarrow> 'f \<Rightarrow> str list \<Rightarrow> 'f idfobject list \<Rightarrow> 'f item list \<Rightarrow> exn + 'f item list" where
  "objects_loop E obj_type c fs [] target_updates = Inr target_updates"
| "objects_loop E obj_type c fs (obj # rest) target_updates =
     (case fields_loop E obj_type obj c fs target_updates of
        Inl e \<Rightarrow> Inl e
      | Inr acc \<Rightarrow> objects_loop E obj_type c fs rest acc)"

fun mods_loop ::
  "'f pyenv \<Rightarrow> 'f idfobjects \<Rightarrow> 'f modification list \<Rightarrow> 'f item list \<Rightarrow> exn + 'f item list" where
  "mods_loop E idfobjects [] target_updates = Inr target_updates"
| "mods_loop E idfobjects (m # rest) target_updates =
     (case idfobjects (object_type m) of
        None \<Rightarrow> mods_loop E idfobjects rest target_updates
      | Some objs \<Rightarrow>
          (case objects_loop E (object_type m) (coef m) (mod_fields m) objs target_updates of
             Inl e \<Rightarrow> Inl e
           | Inr acc \<Rightarrow> mods_loop E idfobjects rest acc))"

text \<open>
  \<open>execute_modification\<close>: the number it returns and the bytes it has written to the output
  path, from the parsed model, the requests and the bytes of the source file.
\<close>

definition execute_modification ::
  "'f pyenv \<Rightarrow> 'f idfobjects \<Rightarrow> bytes \<Rightarrow> 'f modification list \<Rightarrow> exn + (nat \<times> bytes)" where
  "execute_modification E idfobjects file modifications =
     (case mods_loop E idfobjects modifications [] of
        Inl e \<Rightarrow> Inl e
      | Inr target_updates \<Rightarrow>
          (case save_with_text_replacement E target_updates file of
             Inl e \<Rightarrow> Inl e
           | Inr out \<Rightarrow> Inr (length target_updates, out)))"

section \<open>The Active Field List\<close>

definition is_blank :: "'f pyenv \<Rightarrow> 'f pyval \<Rightarrow> bool" where
  "is_blank E v = (case v of PNone \<Rightarrow> True | PStr s \<Rightarrow> strip E s = [] | _ \<Rightarrow> False)"

fun last_idx_loop :: "'f pyenv \<Rightarrow> int \<Rightarrow> int \<Rightarrow> 'f pyval list \<Rightarrow> int" where
  "last_idx_loop E idx last_idx [] = last_idx"
| "last_idx_loop E idx last_idx (val # rest) =
     last_idx_loop E (idx + 1) (if is_blank E val then last_idx else idx) rest"

fun active_loop :: "'f pyenv \<Rightarrow> int \<Rightarrow> int \<Rightarrow> str list \<Rightarrow> str list" where
  "active_loop E idx last_idx [] = []"
| "active_loop E idx last_idx (f # rest) =
     (if lower E f = ustr ''key'' then active_loop E (idx + 1) last_idx rest
      else if idx > last_idx then []
      else f # active_loop E (idx + 1) last_idx rest)"

definition get_active_fields :: "'f pyenv \<Rightarrow> 'f idfobject \<Rightarrow> str list" where
  "get_active_fields E obj =
     (let last_idx = last_idx_loop E 0 (- 1) (fieldvalues obj)
      in if last_idx < 0 then [] else active_loop E 0 last_idx (fieldnames obj))"

section \<open>An environment for the examples\<close>

text \<open>
  A POSIX platform, no white space, digit or case mapping beyond ASCII, and floats that are
  whole numbers, kept as integers: a string of ASCII digits converts to its value, scaling
  multiplies, and a whole float is written with \<open>.0\<close> after its digits.
\<close>

fun digits_of :: "nat \<Rightarrow> nat \<Rightarrow> string" where
  "digits_of 0 n = []"
| "digits_of (Suc k) n =
     (if n < 10 then [char_of (48 + n)] else digits_of k (n div 10) @ [char_of (48 + n mod 10)])"

definition example_env :: "int pyenv" where
  "example_env =
     \<lparr>uspace = (\<lambda>c. False), udecimal = (\<lambda>c. False), uupper = (\<lambda>c. [c]),
      ulower = (\<lambda>s i. [s ! i]), linesep = [10],
      float_of_str = (\<lambda>s. if s \<noteq> [] \<and> list_all (\<lambda>c. 48 \<le> c \<and> c \<le> 57) s
                          then Some (int (foldl (\<lambda>a c. 10 * a + (c - 48)) 0 s)) else None),
      float_of_int = Some, float_zero = 0, scale_round = (\<lambda>v c. v * c),
      fmt = (\<lambda>v. (if v < 0 then ''-'' else []) @ digits_of (Suc (nat \<bar>v\<bar>)) (nat \<bar>v\<bar>) @ ''.0'')\<rparr>"

text \<open>A document for the examples: one request, for the field \<open>Some Field\<close> of zone \<open>Z1\<close>.\<close>

definition zone_request :: "int item list" where
  "zone_request =
     [\<lparr>item_type = ustr ''Zone'', item_name = ustr ''Z1'', item_field = ustr ''Some Field'',
       item_value = 80\<rparr>]"

definition in_zone_z1 :: pstate where
  "in_zone_z1 =
     \<lparr>current_type = Some (ustr ''ZONE''), current_name = Some (ustr ''Z1''), in_obj = True\<rparr>"

text \<open>
  An instance in the layout of eppy, where the first field name is \<open>key\<close> and the first
  value the object type, with the values \<open>"A", "", 5, "", ""\<close> after it; and the same
  instance without the key on either side.
\<close>

definition sample_instance :: "int idfobject" where
  "sample_instance =
     \<lparr>obj_name = None,
      fieldnames = map ustr [''key'', ''field0'', ''field1'', ''field2'', ''field3'', ''field4''],
      fieldvalues = [PStr (ustr ''ZONE''), PStr (ustr ''A''), PStr [], PInt 5, PStr [], PStr []],
      attrs = (\<lambda>a. None)\<rparr>"

definition sample_instance_no_key :: "int idfobject" where
  "sample_instance_no_key =
     \<lparr>obj_name = None,
      fieldnames = map ustr [''field0'', ''field1'', ''field2'', ''field3'', ''field4''],
      fieldvalues = [PStr (ustr ''A''), PStr [], PInt 5, PStr [], PStr []],
      attrs = (\<lambda>a. None)\<rparr>"

text \<open>The characters a numeric literal of the pattern can be made of.\<close>

definition numchar :: "'f pyenv \<Rightarrow> nat \<Rightarrow> bool" where
  "numchar E c = (isdecimal E c \<or> c = 43 \<or> c = 45 \<or> c = 46 \<or> c = 69 \<or> c = 101)"

text \<open>The state in the block of the lights \<open>L1\<close>, for the examples of label matching.\<close>

definition in_lights_l1 :: pstate where
  "in_lights_l1 =
     \<lparr>current_type = Some (ustr ''LIGHTS''), current_name = Some (ustr ''L1''), in_obj = True\<rparr>"

text \<open>
  A parsed model for the examples: one zone \<open>Z1\<close> with a numeric field, a field that holds
  text and a field that is empty; and a source file of the same zone that carries no comments.
\<close>

definition zone_obj :: "int idfobject" where
  "zone_obj =
     \<lparr>obj_name = Some (ustr ''Z1''),
      fieldnames = map ustr [''key'', ''Name'', ''Some_Field'', ''Zone_List'', ''Other''],
      fieldvalues = [PStr (ustr ''ZONE''), PStr (ustr ''Z1''), PInt 100, PStr (ustr ''Core''), PStr []],
      attrs = (\<lambda>a. if a = ustr ''Name'' then Some (PStr (ustr ''Z1''))
                    else if a = ustr ''Some_Field'' then Some (PInt 100)
                    else if a = ustr ''Zone_List'' then Some (PStr (ustr ''Core''))
                    else if a = ustr ''Other'' then Some (PStr [])
                    else None)\<rparr>"

definition zone_idf :: "int idfobjects" where
  "zone_idf = (\<lambda>t. if t = ustr ''ZONE'' then Some [zone_obj] else None)"

definition zone_file_plain :: bytes where
  "zone_file_plain = ''ZONE,\<newline>  Z1,\<newline>  100,\<newline>  Core,\<newline>  ;\<newline>''"

definition zone_file_commented :: bytes where
  "zone_file_commented =
     ''ZONE,\<newline>  Z1,  !- Name\<newline>  100,  !- Some Field\<newline>  Core,  !- Zone List\<newline>  ;  !- Other\<newline>''"

text \<open>
  A source file in which the record \<open>ZONE, Z1, 100.0, !- Some Field\<close> stands inside the block
  of zone \<open>Z1\<close>.
\<close>

definition zone_file_record :: bytes where
  "zone_file_record = ''ZONE,\<newline>  Z1,  !- Name\<newline>ZONE, Z1, 100.0, !- Some Field\<newline>''"

text \<open>
  A source file of the zone \<open>Z1\<close> whose empty field \<open>Other\<close> is followed by a comma; and an
  instance of \<open>People\<close>, where the label \<open>Number of People\<close> of a numeric field occurs in the
  label \<open>Number of People Schedule Name\<close> of a field that holds text, with its source file.
\<close>

definition zone_file_other :: bytes where
  "zone_file_other = ''ZONE,\<newline>  Z1,  !- Name\<newline>  ,  !- Other\<newline>  100;  !- Some Field\<newline>''"

definition people_obj :: "int idfobject" where
  "people_obj =
     \<lparr>obj_name = Some (ustr ''P1''),
      fieldnames = map ustr [''key'', ''Name'', ''Number_of_People_Schedule_Name'', ''Number_of_People''],
      fieldvalues = [PStr (ustr ''PEOPLE''), PStr (ustr ''P1''), PStr (ustr ''Office Occ''), PInt 10],
      attrs = (\<lambda>a. if a = ustr ''Name'' then Some (PStr (ustr ''P1''))
                    else if a = ustr ''Number_of_People_Schedule_Name'' then Some (PStr (ustr ''Office Occ''))
                    else if a = ustr ''Number_of_People'' then Some (PInt 10)
                    else None)\<rparr>"

definition people_idf :: "int idfobjects" where
  "people_idf = (\<lambda>t. if t = ustr ''PEOPLE'' then Some [people_obj] else None)"

definition people_file :: bytes where
  "people_file =
     ''People,\<newline>  P1,  !- Name\<newline>  Office Occ,  !- Number of People Schedule Name\<newline>  10;  !- Number of People\<newline>''"

section \<open>The loop, line by line\<close>

lemma length_patch_lines: "length (patch_lines E um st lines) = length lines"
  by (induction lines arbitrary: st) (auto split: prod.splits)

lemma patch_lines_nth:
  "i < length lines \<Longrightarrow>
   \<exists>st'. patch_lines E um st lines ! i =
          (fst (patch_line E um st' (lines ! i)), snd (snd (patch_line E um st' (lines ! i))))"
proof (induction lines arbitrary: st i)
  case Nil
  then show ?case by simp
next
  case (Cons l ls)
  obtain l' st1 b where p: "patch_line E um st l = (l', st1, b)"
    by (cases "patch_line E um st l") auto
  show ?case
  proof (cases i)
    case 0
    with p show ?thesis by (intro exI [of _ st]) simp
  next
    case (Suc j)
    with Cons.prems have "j < length ls" by simp
    from Cons.IH [OF this, of st1] Suc p show ?thesis by simp
  qed
qed

lemma patch_line_flag:
  "\<not> snd (snd (patch_line E um st line)) \<Longrightarrow> fst (patch_line E um st line) = line"
  by (auto simp: patch_line_def Let_def split: if_splits option.splits)

lemma substitute_no_bang: "33 \<notin> set line \<Longrightarrow> substitute E um st line = None"
  by (simp add: substitute_def)

lemma patch_line_no_bang:
  "33 \<notin> set line \<Longrightarrow>
   fst (patch_line E um st line) = line \<and> \<not> snd (snd (patch_line E um st line))"
  by (simp add: patch_line_def Let_def substitute_no_bang)

text \<open>
  C10. A line without an exclamation mark is copied to the output as it is, whatever the
  state of the loop and whatever is pending: in the block of a target type, for the current
  instance, it is still not substituted. Stated for one turn of the loop in any state, and for
  every position of any document.
\<close>

theorem line_without_comment_copied:
  assumes "i < length lines" and "33 \<notin> set (lines ! i)"
  shows "new_lines E target_updates lines ! i = lines ! i
         \<and> fst (patch_line E um st (lines ! i)) = lines ! i
         \<and> \<not> snd (snd (patch_line E um st (lines ! i)))"
proof -
  let ?um = "build_updates_map E target_updates"
  from patch_lines_nth [OF assms(1), of E ?um init_state]
  obtain st' where
    "patch_lines E ?um init_state lines ! i =
       (fst (patch_line E ?um st' (lines ! i)), snd (snd (patch_line E ?um st' (lines ! i))))"
    by blast
  with patch_line_no_bang [OF assms(2), of E ?um st'] assms(1)
  have "new_lines E target_updates lines ! i = lines ! i"
    by (simp add: new_lines_def length_patch_lines)
  with patch_line_no_bang [OF assms(2), of E um st] show ?thesis by simp
qed

theorem line_without_comment_copied_witness:
  "(2::nat) < length (map ustr [''Zone,'', ''  Z1,  !- Name'', ''  100.0,'', ''  5;  !- Some Field''])
   \<and> 33 \<notin> set (map ustr [''Zone,'', ''  Z1,  !- Name'', ''  100.0,'', ''  5;  !- Some Field''] ! 2)
   \<and> new_lines example_env zone_request
        (map ustr [''Zone,'', ''  Z1,  !- Name'', ''  100.0,'', ''  5;  !- Some Field'']) ! 2
      = ustr ''  100.0,''
   \<and> fst (patch_line example_env (build_updates_map example_env zone_request) in_zone_z1
            (ustr ''  100.0,'')) = ustr ''  100.0,''"
proof -
  let ?ls = "map ustr [''Zone,'', ''  Z1,  !- Name'', ''  100.0,'', ''  5;  !- Some Field'']"
  have a: "(2::nat) < length ?ls" by simp
  have b: "33 \<notin> set (?ls ! 2)" by (simp add: ustr_def)
  have c: "?ls ! 2 = ustr ''  100.0,''" by simp
  from line_without_comment_copied [OF a b, of example_env zone_request
      "build_updates_map example_env zone_request" in_zone_z1]
  show ?thesis using a b unfolding c by simp
qed

section \<open>The Active Field List\<close>

lemma active_loop_eq:
  "active_loop E idx last_idx names
     = filter (\<lambda>f. lower E f \<noteq> ustr ''key'') (take (nat (last_idx - idx + 1)) names)"
proof (induction names arbitrary: idx)
  case Nil
  then show ?case by simp
next
  case (Cons f rest)
  show ?case
  proof (cases "idx > last_idx")
    case True
    then show ?thesis by (simp add: Cons.IH)
  next
    case False
    then have "nat (last_idx - idx + 1) = Suc (nat (last_idx - (idx + 1) + 1))" by simp
    with False show ?thesis by (simp add: Cons.IH)
  qed
qed

lemma last_idx_loop_eq:
  "last_idx_loop E idx last_idx vals
     = (if list_all (is_blank E) vals then last_idx
        else idx + int (length (rev (dropWhile (is_blank E) (rev vals)))) - 1)"
proof (induction vals arbitrary: idx last_idx)
  case Nil
  then show ?case by simp
next
  case (Cons v rest)
  show ?case
  proof (cases "list_all (is_blank E) rest")
    case True
    then have "dropWhile (is_blank E) (rev rest) = []" by (simp add: list_all_iff)
    with True show ?thesis by (simp add: Cons.IH dropWhile_append)
  next
    case False
    then have "dropWhile (is_blank E) (rev rest) \<noteq> []" by (auto simp: list_all_iff)
    with False show ?thesis by (simp add: Cons.IH dropWhile_append)
  qed
qed

lemma get_active_fields_eq:
  "get_active_fields E obj
     = filter (\<lambda>f. lower E f \<noteq> ustr ''key'')
         (take (length (rev (dropWhile (is_blank E) (rev (fieldvalues obj))))) (fieldnames obj))"
proof (cases "list_all (is_blank E) (fieldvalues obj)")
  case True
  then have d: "dropWhile (is_blank E) (rev (fieldvalues obj)) = []" by (simp add: list_all_iff)
  from True show ?thesis by (simp add: get_active_fields_def last_idx_loop_eq d)
next
  case False
  then have "dropWhile (is_blank E) (rev (fieldvalues obj)) \<noteq> []" by (auto simp: list_all_iff)
  then have "length (rev (dropWhile (is_blank E) (rev (fieldvalues obj)))) > 0" by simp
  with False show ?thesis
    by (auto simp: get_active_fields_def last_idx_loop_eq active_loop_eq Let_def list_all_iff)
qed

text \<open>
  C9, as the claim states it: the Active Field List of the instance with the values
  \<open>"A", "", 5, "", ""\<close> would be \<open>field0, field2\<close>. The program returns
  \<open>field0, field1, field2\<close>, with or without the key in the lists: the blank \<open>field1\<close>
  stands before the last value that is not blank and is kept.
\<close>

theorem active_fields_example_counterexample:
  "get_active_fields example_env sample_instance \<noteq> map ustr [''field0'', ''field2'']
   \<and> get_active_fields example_env sample_instance = map ustr [''field0'', ''field1'', ''field2'']
   \<and> get_active_fields example_env sample_instance_no_key \<noteq> map ustr [''field0'', ''field2'']"
  by code_simp

text \<open>
  C9, amended. In every environment the Active Field List is the field names, without the
  key label, at the positions up to the last value that is not blank: only the blank values
  after that one are dropped. For the instance of the claim it is \<open>field0, field1, field2\<close>.
  \<open>None\<close> and a string of white space are blank; the number \<open>0\<close> is not.
\<close>

theorem active_fields_up_to_last_nonblank:
  "get_active_fields E obj
     = filter (\<lambda>f. lower E f \<noteq> ustr ''key'')
         (take (length (rev (dropWhile (is_blank E) (rev (fieldvalues obj))))) (fieldnames obj))
   \<and> get_active_fields E
        \<lparr>obj_name = n,
         fieldnames = map ustr [''key'', ''field0'', ''field1'', ''field2'', ''field3'', ''field4''],
         fieldvalues = [PStr (ustr ''ZONE''), PStr (ustr ''A''), PStr [], PInt 5, PStr [], PStr []],
         attrs = a\<rparr>
       = map ustr [''field0'', ''field1'', ''field2'']
   \<and> get_active_fields E
        \<lparr>obj_name = n,
         fieldnames = map ustr [''key'', ''field0'', ''field1'', ''field2'', ''field3''],
         fieldvalues = [PStr (ustr ''ZONE''), PStr (ustr ''A''), PStr [], PInt 0, PStr (ustr '' '')],
         attrs = a\<rparr>
       = map ustr [''field0'', ''field1'', ''field2'']
   \<and> \<not> is_blank E (PInt 0) \<and> is_blank E (PStr []) \<and> is_blank E PNone"
proof -
  have ex1: "get_active_fields E
        \<lparr>obj_name = n,
         fieldnames = map ustr [''key'', ''field0'', ''field1'', ''field2'', ''field3'', ''field4''],
         fieldvalues = [PStr (ustr ''ZONE''), PStr (ustr ''A''), PStr [], PInt 5, PStr [], PStr []],
         attrs = a\<rparr>
       = map ustr [''field0'', ''field1'', ''field2'']"
    by (simp add: get_active_fields_def is_blank_def strip_def isspace_def lower_def ustr_def
        upt_rec)
  have ex2: "get_active_fields E
        \<lparr>obj_name = n,
         fieldnames = map ustr [''key'', ''field0'', ''field1'', ''field2'', ''field3''],
         fieldvalues = [PStr (ustr ''ZONE''), PStr (ustr ''A''), PStr [], PInt 0, PStr (ustr '' '')],
         attrs = a\<rparr>
       = map ustr [''field0'', ''field1'', ''field2'']"
    by (simp add: get_active_fields_def is_blank_def strip_def isspace_def lower_def ustr_def
        upt_rec)
  have bl: "\<not> is_blank E (PInt 0) \<and> is_blank E (PStr []) \<and> is_blank E PNone"
    by (simp add: is_blank_def strip_def)
  from get_active_fields_eq [of E obj] ex1 ex2 bl show ?thesis by simp
qed

section \<open>Splitting and searching\<close>

lemma split_on_nonempty: "split_on c s \<noteq> []"
  by (induction s) (auto split: list.splits)

lemma hd_split_on: "hd (split_on c s) = takeWhile (\<lambda>x. x \<noteq> c) s"
  by (induction s) (auto split: list.splits simp: split_on_nonempty)

lemma length_split_on: "length (split_on c s) = Suc (length (filter (\<lambda>x. x = c) s))"
  by (induction s) (auto split: list.splits simp: split_on_nonempty)

lemma startswith_iff: "startswith s p \<longleftrightarrow> (\<exists>post. s = p @ post)"
  by (induction s p rule: startswith.induct) auto

lemma contains_iff: "contains s sub \<longleftrightarrow> (\<exists>pre post. s = pre @ sub @ post)"
proof (induction s)
  case Nil
  then show ?case by auto
next
  case (Cons x xs)
  show ?case
  proof
    assume "contains (x # xs) sub"
    then consider "startswith (x # xs) sub" | "contains xs sub" by auto
    then show "\<exists>pre post. x # xs = pre @ sub @ post"
    proof cases
      case 1
      then obtain post where "x # xs = sub @ post" by (auto simp: startswith_iff)
      then have "x # xs = [] @ sub @ post" by simp
      then show ?thesis by blast
    next
      case 2
      with Cons.IH obtain pre post where "xs = pre @ sub @ post" by blast
      then have "x # xs = (x # pre) @ sub @ post" by simp
      then show ?thesis by blast
    qed
  next
    assume "\<exists>pre post. x # xs = pre @ sub @ post"
    then obtain pre post where e: "x # xs = pre @ sub @ post" by blast
    show "contains (x # xs) sub"
    proof (cases pre)
      case Nil
      with e have "startswith (x # xs) sub" by (auto simp: startswith_iff)
      then show ?thesis by simp
    next
      case (Cons y pre')
      with e have "xs = pre' @ sub @ post" by simp
      with Cons.IH have "contains xs sub" by blast
      then show ?thesis by simp
    qed
  qed
qed

section \<open>Name capture\<close>

text \<open>
  C6, as the claim states it: the name is captured exactly when the comment token of the line
  is \<open>Name\<close>. Inside the block of zone \<open>Z1\<close>, the line \<open>Z9,  !- Name of Zone List\<close> has the
  comment token \<open>Name of Zone List\<close> and sets the name to \<open>Z9\<close>; the line \<open>Z9,  ! - Name\<close>
  has the comment token \<open>Name\<close> and leaves the name \<open>Z1\<close>.
\<close>

theorem name_capture_counterexample:
  "comment_token example_env (ustr ''  Z9,  !- Name of Zone List'') \<noteq> ustr ''Name''
   \<and> current_name (fst (snd (patch_line example_env (build_updates_map example_env zone_request)
        in_zone_z1 (ustr ''  Z9,  !- Name of Zone List'')))) = Some (ustr ''Z9'')
   \<and> comment_token example_env (ustr ''  Z9,  ! - Name'') = ustr ''Name''
   \<and> current_name (fst (snd (patch_line example_env (build_updates_map example_env zone_request)
        in_zone_z1 (ustr ''  Z9,  ! - Name'')))) = Some (ustr ''Z1'')"
  by code_simp

lemma startswith_bang: "startswith s (ustr ''!'') \<longleftrightarrow> s \<noteq> [] \<and> hd s = 33"
  by (cases s) (auto simp: startswith_iff ustr_def)

text \<open>
  C6, amended. After a line, the current name is the one captured from it exactly when the
  line is in a block (one open before it, or opened by it) and the text \<open>!- Name\<close> occurs
  somewhere in the line; what is captured is the line up to its first exclamation mark,
  without commas and semicolons, stripped and in upper case. Otherwise the name is the one
  the block opening leaves: \<open>N/A\<close> exactly when the line opens the block of a target type,
  that is, no block is open before the line, the stripped line is neither empty nor a
  comment, and its text before the first exclamation mark and comma, without semicolons,
  stripped and in upper case, is a type of the Update Set; and the name before the line in
  every other case. The line is in a block when one was open before it, or when the stripped
  line is neither empty nor a comment and has a comma or a semicolon or names a target type.
\<close>

theorem name_captured_on_substring:
  "current_name (fst (snd (patch_line E um st line)))
     = (if in_obj (open_block E um st line) \<and> (\<exists>pre post. line = pre @ ustr ''!- Name'' @ post)
        then Some (upper E (strip E (remove_char 59 (remove_char 44
                     (takeWhile (\<lambda>c. c \<noteq> 33) line)))))
        else current_name (open_block E um st line))
   \<and> current_name (open_block E um st line)
     = (if \<not> in_obj st \<and> strip E line \<noteq> [] \<and> hd (strip E line) \<noteq> 33
           \<and> map_of um (upper E (strip E (remove_char 59 (takeWhile (\<lambda>c. c \<noteq> 44)
                 (takeWhile (\<lambda>c. c \<noteq> 33) (strip E line)))))) \<noteq> None
        then Some (ustr ''N/A'') else current_name st)
   \<and> in_obj (open_block E um st line)
     = (in_obj st \<or> strip E line \<noteq> [] \<and> hd (strip E line) \<noteq> 33
           \<and> (44 \<in> set (strip E line) \<or> 59 \<in> set (strip E line)
              \<or> map_of um (upper E (strip E (remove_char 59 (takeWhile (\<lambda>c. c \<noteq> 44)
                   (takeWhile (\<lambda>c. c \<noteq> 33) (strip E line)))))) \<noteq> None))"
proof -
  have n: "current_name (open_block E um st line)
     = (if \<not> in_obj st \<and> strip E line \<noteq> [] \<and> hd (strip E line) \<noteq> 33
           \<and> map_of um (upper E (strip E (remove_char 59 (takeWhile (\<lambda>c. c \<noteq> 44)
                 (takeWhile (\<lambda>c. c \<noteq> 33) (strip E line)))))) \<noteq> None
        then Some (ustr ''N/A'') else current_name st)"
    by (auto simp: open_block_def Let_def hd_split_on startswith_bang)
  have i: "in_obj (open_block E um st line)
     = (in_obj st \<or> strip E line \<noteq> [] \<and> hd (strip E line) \<noteq> 33
           \<and> (44 \<in> set (strip E line) \<or> 59 \<in> set (strip E line)
              \<or> map_of um (upper E (strip E (remove_char 59 (takeWhile (\<lambda>c. c \<noteq> 44)
                   (takeWhile (\<lambda>c. c \<noteq> 33) (strip E line)))))) \<noteq> None))"
    by (auto simp: open_block_def Let_def hd_split_on startswith_bang)
  have c: "current_name (fst (snd (patch_line E um st line)))
     = (if in_obj (open_block E um st line) \<and> (\<exists>pre post. line = pre @ ustr ''!- Name'' @ post)
        then Some (upper E (strip E (remove_char 59 (remove_char 44
                     (takeWhile (\<lambda>c. c \<noteq> 33) line)))))
        else current_name (open_block E um st line))"
    by (simp add: patch_line_def Let_def close_and_name_def hd_split_on contains_iff
        split: option.splits)
  from c n i show ?thesis by (intro conjI)
qed

theorem name_captured_on_substring_witness:
  "current_name (open_block example_env (build_updates_map example_env zone_request) init_state
      (ustr ''Zone,'')) = Some (ustr ''N/A'')
   \<and> current_name (open_block example_env (build_updates_map example_env zone_request) in_zone_z1
      (ustr ''Zone,'')) = Some (ustr ''Z1'')
   \<and> current_name (open_block example_env (build_updates_map example_env zone_request) init_state
      (ustr ''Lights,'')) = None"
proof -
  let ?um = "build_updates_map example_env zone_request"
  let ?ty = "\<lambda>line. upper example_env (strip example_env (remove_char 59 (takeWhile (\<lambda>c. c \<noteq> 44)
                 (takeWhile (\<lambda>c. c \<noteq> 33) (strip example_env line)))))"
  let ?reset = "\<lambda>st line. \<not> in_obj st \<and> strip example_env line \<noteq> [] \<and> hd (strip example_env line) \<noteq> 33
           \<and> map_of ?um (?ty line) \<noteq> None"
  have a: "current_name (open_block example_env ?um init_state (ustr ''Zone,''))
             = (if ?reset init_state (ustr ''Zone,'') then Some (ustr ''N/A'') else current_name init_state)"
    using name_captured_on_substring [of example_env ?um init_state "ustr ''Zone,''"] by blast
  have a': "(if ?reset init_state (ustr ''Zone,'') then Some (ustr ''N/A'') else current_name init_state)
             = Some (ustr ''N/A'')"
    by code_simp
  have b: "current_name (open_block example_env ?um in_zone_z1 (ustr ''Zone,''))
             = (if ?reset in_zone_z1 (ustr ''Zone,'') then Some (ustr ''N/A'') else current_name in_zone_z1)"
    using name_captured_on_substring [of example_env ?um in_zone_z1 "ustr ''Zone,''"] by blast
  have b': "(if ?reset in_zone_z1 (ustr ''Zone,'') then Some (ustr ''N/A'') else current_name in_zone_z1)
             = Some (ustr ''Z1'')"
    by code_simp
  have c: "current_name (open_block example_env ?um init_state (ustr ''Lights,''))
             = (if ?reset init_state (ustr ''Lights,'') then Some (ustr ''N/A'') else current_name init_state)"
    using name_captured_on_substring [of example_env ?um init_state "ustr ''Lights,''"] by blast
  have c': "(if ?reset init_state (ustr ''Lights,'') then Some (ustr ''N/A'') else current_name init_state)
             = None"
    by code_simp
  from a a' have 1: "current_name (open_block example_env ?um init_state (ustr ''Zone,'')) = Some (ustr ''N/A'')"
    by (rule trans)
  from b b' have 2: "current_name (open_block example_env ?um in_zone_z1 (ustr ''Zone,'')) = Some (ustr ''Z1'')"
    by (rule trans)
  from c c' have 3: "current_name (open_block example_env ?um init_state (ustr ''Lights,'')) = None"
    by (rule trans)
  from 1 2 3 show ?thesis by (intro conjI)
qed

section \<open>The UTF-8 codec\<close>

lemma dm64: "b < 64 \<Longrightarrow> (a * 64 + b) div 64 = a \<and> (a * 64 + b) mod 64 = (b::nat)"
  by simp

lemma enc1_ascii: "c < 128 \<Longrightarrow> utf8_enc1 c = Some [c]"
  by (simp add: utf8_enc1_def)

lemma enc1_two:
  assumes "2 \<le> x" "x < 32" "y < 64"
  shows "utf8_enc1 (x * 64 + y) = Some [192 + x, 128 + y]"
proof -
  have r: "128 \<le> x * 64 + y" "x * 64 + y < 2048" using assms by simp_all
  show ?thesis using r dm64 [OF assms(3), of x] by (simp add: utf8_enc1_def)
qed

lemma enc1_three:
  assumes "x < 16" "y < 64" "z < 64" "2048 \<le> x * 4096 + y * 64 + z"
    and "\<not> (55296 \<le> x * 4096 + y * 64 + z \<and> x * 4096 + y * 64 + z < 57344)"
  shows "utf8_enc1 (x * 4096 + y * 64 + z) = Some [224 + x, 128 + y, 128 + z]"
proof -
  let ?cp = "x * 4096 + y * 64 + z"
  have e: "?cp = (x * 64 + y) * 64 + z" by simp
  have m: "?cp mod 64 = z" unfolding e using dm64 [OF assms(3)] by blast
  have d1: "?cp div 64 = x * 64 + y" unfolding e using dm64 [OF assms(3)] by blast
  have d2: "?cp div 64 mod 64 = y" unfolding d1 using dm64 [OF assms(2)] by blast
  have "?cp div 4096 = ?cp div 64 div 64" by (simp add: div_mult2_eq)
  also have "\<dots> = x" unfolding d1 using dm64 [OF assms(2)] by blast
  finally have d3: "?cp div 4096 = x" .
  have r: "?cp < 65536" "\<not> ?cp < 2048" "\<not> ?cp < 128" using assms by simp_all
  show ?thesis
    unfolding utf8_enc1_def using r assms(5) by (simp only: m d2 d3 if_False if_True)
qed

lemma enc1_four:
  assumes "x < 5" "y < 64" "z < 64" "w < 64"
    and "65536 \<le> x * 262144 + y * 4096 + z * 64 + w"
    and "x * 262144 + y * 4096 + z * 64 + w < 1114112"
  shows "utf8_enc1 (x * 262144 + y * 4096 + z * 64 + w) = Some [240 + x, 128 + y, 128 + z, 128 + w]"
proof -
  let ?cp = "x * 262144 + y * 4096 + z * 64 + w"
  have e: "?cp = ((x * 64 + y) * 64 + z) * 64 + w" by simp
  have m: "?cp mod 64 = w" unfolding e using dm64 [OF assms(4)] by blast
  have d1: "?cp div 64 = (x * 64 + y) * 64 + z" unfolding e using dm64 [OF assms(4)] by blast
  have d1m: "?cp div 64 mod 64 = z" unfolding d1 using dm64 [OF assms(3)] by blast
  have "?cp div 4096 = ?cp div 64 div 64" by (simp add: div_mult2_eq)
  also have "\<dots> = x * 64 + y" unfolding d1 using dm64 [OF assms(3)] by blast
  finally have d2: "?cp div 4096 = x * 64 + y" .
  have d2m: "?cp div 4096 mod 64 = y" unfolding d2 using dm64 [OF assms(2)] by blast
  have "?cp div 262144 = ?cp div 4096 div 64" by (simp add: div_mult2_eq)
  also have "\<dots> = x" unfolding d2 using dm64 [OF assms(2)] by blast
  finally have d3: "?cp div 262144 = x" .
  have r: "\<not> ?cp < 65536" "\<not> ?cp < 2048" "\<not> ?cp < 128" using assms(5) by simp_all
  show ?thesis
    unfolding utf8_enc1_def using r assms(6) by (simp only: m d1m d2m d3 if_False if_True)
qed


lemma utf8_dec_cases:
  assumes "utf8_dec (b0 # bs) = Some s"
  obtains
    (one) s' where "b0 < 128" "utf8_dec bs = Some s'" "s = b0 # s'"
  | (two) b1 r s' where "194 \<le> b0" "b0 < 224" "bs = b1 # r" "is_cont b1"
      "utf8_dec r = Some s'" "s = ((b0 - 192) * 64 + (b1 - 128)) # s'"
  | (three) b1 b2 r s' where "224 \<le> b0" "b0 < 240" "bs = b1 # b2 # r" "is_cont b1" "is_cont b2"
      "2048 \<le> (b0 - 224) * 4096 + (b1 - 128) * 64 + (b2 - 128)"
      "\<not> (55296 \<le> (b0 - 224) * 4096 + (b1 - 128) * 64 + (b2 - 128)
          \<and> (b0 - 224) * 4096 + (b1 - 128) * 64 + (b2 - 128) < 57344)"
      "utf8_dec r = Some s'" "s = ((b0 - 224) * 4096 + (b1 - 128) * 64 + (b2 - 128)) # s'"
  | (four) b1 b2 b3 r s' where "240 \<le> b0" "b0 < 245" "bs = b1 # b2 # b3 # r"
      "is_cont b1" "is_cont b2" "is_cont b3"
      "65536 \<le> (b0 - 240) * 262144 + (b1 - 128) * 4096 + (b2 - 128) * 64 + (b3 - 128)"
      "(b0 - 240) * 262144 + (b1 - 128) * 4096 + (b2 - 128) * 64 + (b3 - 128) < 1114112"
      "utf8_dec r = Some s'"
      "s = ((b0 - 240) * 262144 + (b1 - 128) * 4096 + (b2 - 128) * 64 + (b3 - 128)) # s'"
proof (cases "b0 < 128")
  case True
  with assms one show ?thesis by auto
next
  case n1: False
  then obtain b1 r1 where bs: "bs = b1 # r1" using assms by (cases bs) auto
  show ?thesis
  proof (cases "194 \<le> b0 \<and> b0 < 224")
    case True
    with n1 bs assms two show ?thesis by (auto split: if_splits)
  next
    case n2: False
    then obtain b2 r2 where r1: "r1 = b2 # r2" using n1 bs assms by (cases r1) auto
    show ?thesis
    proof (cases "224 \<le> b0 \<and> b0 < 240")
      case True
      with n1 n2 bs r1 assms three show ?thesis
        by (auto simp: Let_def split: if_splits)
    next
      case n3: False
      then obtain b3 r3 where r2: "r2 = b3 # r3" using n1 n2 bs r1 assms by (cases r2) auto
      from n1 n2 n3 bs r1 r2 assms four show ?thesis
        by (auto simp: Let_def split: if_splits)
    qed
  qed
qed


lemma utf8_encode_Cons:
  "utf8_enc1 c = Some e \<Longrightarrow> utf8_encode s = Some bs \<Longrightarrow>
   utf8_encode (c # s) = Some (map char_of e @ bs)"
  by simp

lemma utf8_roundtrip_nat: "utf8_dec bs = Some s \<Longrightarrow> utf8_encode s = Some (map char_of bs)"
proof (induction bs arbitrary: s rule: length_induct)
  case (1 bs)
  show ?case
  proof (cases bs)
    case Nil
    with 1 show ?thesis by simp
  next
    case (Cons b0 bs')
    with 1(2) have d: "utf8_dec (b0 # bs') = Some s" by simp
    from d show ?thesis
    proof (cases rule: utf8_dec_cases)
      case (one s')
      from 1(1) Cons one(2) have "utf8_encode s' = Some (map char_of bs')" by simp
      with enc1_ascii [OF one(1)] have "utf8_encode (b0 # s') = Some (map char_of [b0] @ map char_of bs')"
        by (rule utf8_encode_Cons)
      with one Cons show ?thesis by simp
    next
      case (two b1 r s')
      from 1(1) Cons two(3,5) have ih: "utf8_encode s' = Some (map char_of r)" by simp
      from two have "2 \<le> b0 - 192" "b0 - 192 < 32" "b1 - 128 < 64"
        by (auto simp: is_cont_def)
      then have "utf8_enc1 ((b0 - 192) * 64 + (b1 - 128)) = Some [192 + (b0 - 192), 128 + (b1 - 128)]"
        by (rule enc1_two)
      with two have "utf8_enc1 ((b0 - 192) * 64 + (b1 - 128)) = Some [b0, b1]"
        by (simp add: is_cont_def)
      from utf8_encode_Cons [OF this ih] two Cons show ?thesis by simp
    next
      case (three b1 b2 r s')
      from 1(1) Cons three(3,8) have ih: "utf8_encode s' = Some (map char_of r)" by simp
      from three have b: "b0 - 224 < 16" "b1 - 128 < 64" "b2 - 128 < 64"
        by (auto simp: is_cont_def)
      from enc1_three [OF b three(6,7)] three
      have "utf8_enc1 ((b0 - 224) * 4096 + (b1 - 128) * 64 + (b2 - 128)) = Some [b0, b1, b2]"
        by (simp add: is_cont_def)
      from utf8_encode_Cons [OF this ih] three Cons show ?thesis by simp
    next
      case (four b1 b2 b3 r s')
      from 1(1) Cons four(3,9) have ih: "utf8_encode s' = Some (map char_of r)" by simp
      from four have b: "b0 - 240 < 5" "b1 - 128 < 64" "b2 - 128 < 64" "b3 - 128 < 64"
        by (auto simp: is_cont_def)
      from enc1_four [OF b four(7,8)] four
      have "utf8_enc1 ((b0 - 240) * 262144 + (b1 - 128) * 4096 + (b2 - 128) * 64 + (b3 - 128))
              = Some [b0, b1, b2, b3]"
        by (simp add: is_cont_def)
      from utf8_encode_Cons [OF this ih] four Cons show ?thesis by simp
    qed
  qed
qed

lemma utf8_roundtrip: "utf8_decode file = Some s \<Longrightarrow> utf8_encode s = Some file"
  using utf8_roundtrip_nat [of "map of_char file" s]
  by (simp add: utf8_decode_def comp_def)

lemma utf8_encode_total:
  "(\<exists>bs. utf8_encode s = Some bs) \<longleftrightarrow> list_all (\<lambda>c. utf8_enc1 c \<noteq> None) s"
  by (induction s) (auto split: option.splits)

section \<open>Reading, writing and the empty Update Set\<close>

lemma concat_split_lines: "concat (split_lines s) = s"
  by (induction s) (auto split: list.splits)

lemma universal_newlines_id: "13 \<notin> set s \<Longrightarrow> universal_newlines s = s"
  by (induction s rule: universal_newlines.induct) auto

lemma set_universal_newlines: "set (universal_newlines s) \<subseteq> insert 10 (set s)"
  by (induction s rule: universal_newlines.induct) auto

lemma write_newlines_id: "linesep E = [10] \<Longrightarrow> write_newlines E s = s"
  by (induction s) (auto simp: write_newlines_def)

lemma set_write_newlines: "set (write_newlines E s) \<subseteq> set s \<union> set (linesep E)"
  by (auto simp: write_newlines_def split: if_splits)

lemma substitute_no_updates: "substitute E [] st line = None"
  by (simp add: substitute_def split: option.splits)

lemma patch_line_no_updates:
  "fst (patch_line E [] st line) = line \<and> \<not> snd (snd (patch_line E [] st line))"
  by (simp add: patch_line_def Let_def substitute_no_updates)

lemma patch_lines_no_updates: "patch_lines E [] st lines = map (\<lambda>l. (l, False)) lines"
proof (induction lines arbitrary: st)
  case Nil
  then show ?case by simp
next
  case (Cons l ls)
  obtain l' st' b where p: "patch_line E [] st l = (l', st', b)"
    by (cases "patch_line E [] st l") auto
  with patch_line_no_updates [of E st l] have "l' = l" "\<not> b" by simp_all
  with p Cons.IH [of st'] show ?case by simp
qed

lemma new_lines_no_updates: "new_lines E [] lines = lines"
  by (simp add: new_lines_def build_updates_map_def patch_lines_no_updates comp_def)

lemma substitutions_no_updates: "substitutions E [] lines = 0"
  by (simp add: substitutions_def build_updates_map_def patch_lines_no_updates comp_def)

lemma set_ustr: "set (ustr x) \<subseteq> {c. c < 256}"
  by (auto simp: ustr_def)

lemma enc1_latin1: "c < 256 \<Longrightarrow> utf8_enc1 c \<noteq> None"
  by (simp add: utf8_enc1_def)

lemma if_Some_None: "(if c then Some x else None) = None \<or> (if c then Some x else None) = Some x"
  by simp

lemma set_re_match:
  assumes "re_match E s = Some (g1, g2, g3, g4)"
  shows "set g1 \<union> set g3 \<union> set g4 \<subseteq> set s"
proof -
  let ?tok = "\<lambda>c. \<not> isspace E c \<and> c \<noteq> 44 \<and> c \<noteq> 59"
  let ?r1 = "dropWhile (isspace E) s"
  let ?r2 = "dropWhile ?tok ?r1"
  let ?r3 = "dropWhile (isspace E) ?r2"
  have r1: "set ?r1 \<subseteq> set s" by (auto dest: set_dropWhileD)
  have r2: "set ?r2 \<subseteq> set s" using r1 by (auto dest: set_dropWhileD)
  have r3: "set ?r3 \<subseteq> set s" using r2 by (auto dest: set_dropWhileD)
  have "re_match E s = None \<or> re_match E s = Some (takeWhile (isspace E) s, takeWhile ?tok ?r1,
          takeWhile (isspace E) ?r2, if ?r3 \<noteq> [] \<and> last ?r3 = 10 then butlast ?r3 else ?r3)"
    unfolding re_match_def Let_def by (rule if_Some_None)
  with assms have g1: "g1 = takeWhile (isspace E) s" and g3: "g3 = takeWhile (isspace E) ?r2"
    and g4: "g4 = (if ?r3 \<noteq> [] \<and> last ?r3 = 10 then butlast ?r3 else ?r3)"
    by simp_all
  have "set g1 \<subseteq> set s" unfolding g1 by (auto dest: set_takeWhileD)
  moreover have "set g3 \<subseteq> set s" unfolding g3 using r2 by (auto dest: set_takeWhileD)
  moreover have "set g4 \<subseteq> set s" unfolding g4 using r3 by (auto dest: in_set_butlastD)
  ultimately show ?thesis by blast
qed

lemma set_tl_subset: "set (tl xs) \<subseteq> set xs"
  by (cases xs) auto

lemma set_rstrip_crlf: "set (rstrip_crlf s) \<subseteq> set s"
  by (auto simp: rstrip_crlf_def dest: set_dropWhileD)

lemma set_rewrite_line:
  assumes "rewrite_line E v line = Some l"
  shows "set l \<subseteq> set line \<union> {c. c < 256}"
proof -
  let ?content = "take (find_char 33 line) line"
  let ?comment = "drop (find_char 33 line) line"
  have c: "set ?content \<subseteq> set line" by (rule set_take_subset)
  have d: "set ?comment \<subseteq> set line" by (rule set_drop_subset)
  have f: "set (ustr (fmt E v)) \<subseteq> {c. c < 256}" by (rule set_ustr)
  show ?thesis
  proof (cases "re_match E (rstrip_crlf ?content)")
    case (Some g)
    obtain g1 g2 g3 g4 where g: "g = (g1, g2, g3, g4)" by (cases g) auto
    from Some g set_re_match [of E "rstrip_crlf ?content" g1 g2 g3 g4] set_rstrip_crlf [of ?content] c
    have "set g1 \<union> set g3 \<union> set g4 \<subseteq> set line" by blast
    moreover from assms Some g have "l = g1 @ ustr (fmt E v) @ g3 @ g4 @ ?comment"
      by (simp add: rewrite_line_def)
    ultimately show ?thesis using d f by auto
  next
    case None
    have "set (tl (dropWhile (\<lambda>x. x \<noteq> 44) ?content))
            \<subseteq> set (dropWhile (\<lambda>x. x \<noteq> 44) ?content)"
      by (rule set_tl_subset)
    also have "\<dots> \<subseteq> set ?content" by (auto dest: set_dropWhileD)
    finally have t: "set (tl (dropWhile (\<lambda>x. x \<noteq> 44) ?content)) \<subseteq> set line"
      using c by blast
    from assms None have "44 \<in> set ?content"
      and "l = ustr ''    '' @ ustr (fmt E v) @ ustr '','' @ tl (dropWhile (\<lambda>x. x \<noteq> 44) ?content) @ ?comment"
      by (auto simp: rewrite_line_def split_once_def Let_def split: if_splits)
    then show ?thesis using t d f set_ustr [of "''    ''"] set_ustr [of "'',''"] by auto
  qed
qed

lemma set_patch_line: "set (fst (patch_line E um st line)) \<subseteq> set line \<union> {c. c < 256}"
proof (cases "substitute E um (close_and_name E (open_block E um st line) line) line")
  case None
  then show ?thesis by (auto simp: patch_line_def Let_def)
next
  case (Some l)
  then obtain v where "rewrite_line E v line = Some l"
    by (auto simp: substitute_def split: if_splits option.splits)
  from set_rewrite_line [OF this] Some show ?thesis
    by (auto simp: patch_line_def Let_def)
qed

lemma set_patch_lines:
  "set (concat (map fst (patch_lines E um st lines))) \<subseteq> set (concat lines) \<union> {c. c < 256}"
proof (induction lines arbitrary: st)
  case Nil
  then show ?case by simp
next
  case (Cons l ls)
  obtain l' st' b where p: "patch_line E um st l = (l', st', b)"
    by (cases "patch_line E um st l") auto
  from set_patch_line [of E um st l] p have "set l' \<subseteq> set l \<union> {c. c < 256}" by simp
  with Cons.IH [of st'] p show ?case by auto
qed

lemma read_source_encodable:
  "list_all (\<lambda>c. utf8_enc1 c \<noteq> None) (concat (snd (read_source file)))"
proof (cases "utf8_decode file")
  case None
  have "set (universal_newlines (latin1_decode file)) \<subseteq> {c. c < 256}"
    using set_universal_newlines [of "latin1_decode file"] by (auto simp: latin1_decode_def)
  with enc1_latin1 have "\<forall>c\<in>set (universal_newlines (latin1_decode file)). utf8_enc1 c \<noteq> None"
    by blast
  with None show ?thesis
    by (simp add: read_source_def readlines_def concat_split_lines list_all_iff)
next
  case (Some s)
  from utf8_roundtrip [OF Some] utf8_encode_total [of s]
  have "list_all (\<lambda>c. utf8_enc1 c \<noteq> None) s" by blast
  moreover have "utf8_enc1 10 \<noteq> None" by (simp add: utf8_enc1_def)
  ultimately have "list_all (\<lambda>c. utf8_enc1 c \<noteq> None) (universal_newlines s)"
    using set_universal_newlines [of s] by (auto simp: list_all_iff)
  with Some show ?thesis
    by (simp add: read_source_def readlines_def concat_split_lines)
qed

lemma save_succeeds:
  assumes "list_all (\<lambda>c. utf8_enc1 c \<noteq> None) (linesep E)"
  shows "\<exists>out. save_with_text_replacement E ups file = Inr out
           \<and> utf8_encode (write_newlines E (concat (new_lines E ups (snd (read_source file)))))
               = Some out"
proof -
  let ?text = "concat (new_lines E ups (snd (read_source file)))"
  have "set ?text \<subseteq> set (concat (snd (read_source file))) \<union> {c. c < 256}"
    unfolding new_lines_def by (rule set_patch_lines)
  with read_source_encodable [of "file"] enc1_latin1
  have "list_all (\<lambda>c. utf8_enc1 c \<noteq> None) ?text"
    unfolding list_all_iff by blast
  with assms set_write_newlines [of E ?text]
  have "list_all (\<lambda>c. utf8_enc1 c \<noteq> None) (write_newlines E ?text)"
    unfolding list_all_iff by blast
  with utf8_encode_total [of "write_newlines E ?text"]
  obtain out where "utf8_encode (write_newlines E ?text) = Some out" by blast
  then show ?thesis
    by (simp add: save_with_text_replacement_def write_output_def)
qed

section \<open>The numeric pattern\<close>

lemma decimal_not_space: "isdecimal E c \<Longrightarrow> \<not> isspace E c \<and> c \<noteq> 44 \<and> c \<noteq> 59 \<and> c \<noteq> 33"
  by (auto simp: isdecimal_def isspace_def split: if_splits)

lemma sign_not_space: "c = 43 \<or> c = 45 \<or> c = 46 \<or> c = 69 \<or> c = 101 \<Longrightarrow>
    \<not> isspace E c \<and> c \<noteq> 44 \<and> c \<noteq> 59 \<and> c \<noteq> 33"
  by (auto simp: isspace_def)

lemma numchar_not_space: "numchar E c \<Longrightarrow> \<not> isspace E c \<and> c \<noteq> 44 \<and> c \<noteq> 59 \<and> c \<noteq> 33"
  unfolding numchar_def using decimal_not_space [of E c] sign_not_space [of c E] by blast

lemma is_exponent_chars: "is_exponent E r \<Longrightarrow> list_all (numchar E) r"
  by (auto simp: is_exponent_def numchar_def Let_def list_all_iff split: list.splits if_splits)

lemma list_all_takeWhile_dropWhile:
  "list_all P (takeWhile Q xs) \<Longrightarrow> list_all P (dropWhile Q xs) \<Longrightarrow> list_all P xs"
  by (metis list_all_append takeWhile_dropWhile_id)

lemma mantissa_chars:
  assumes "case dropWhile (isdecimal E) t of [] \<Rightarrow> takeWhile (isdecimal E) t \<noteq> []
           | c # r \<Rightarrow> if c = 46
               then takeWhile (isdecimal E) r \<noteq> [] \<and>
                    (dropWhile (isdecimal E) r = [] \<or> is_exponent E (dropWhile (isdecimal E) r))
               else takeWhile (isdecimal E) t \<noteq> [] \<and> is_exponent E (dropWhile (isdecimal E) t)"
  shows "t \<noteq> [] \<and> list_all (numchar E) t"
proof -
  have t: "t = takeWhile (isdecimal E) t @ dropWhile (isdecimal E) t" by simp
  have d1: "list_all (numchar E) (takeWhile (isdecimal E) t)"
    by (auto simp: list_all_iff numchar_def dest: set_takeWhileD)
  show ?thesis
  proof (cases "dropWhile (isdecimal E) t")
    case Nil
    from Nil have tt: "takeWhile (isdecimal E) t = t" by (metis t append_Nil2)
    from assms Nil have "takeWhile (isdecimal E) t \<noteq> []" by simp
    then have "t \<noteq> []" unfolding tt .
    moreover from d1 have "list_all (numchar E) t" unfolding tt .
    ultimately show ?thesis by simp
  next
    case (Cons c r)
    have r: "r = takeWhile (isdecimal E) r @ dropWhile (isdecimal E) r" by simp
    have d2: "list_all (numchar E) (takeWhile (isdecimal E) r)"
      by (auto simp: list_all_iff numchar_def dest: set_takeWhileD)
    have "list_all (numchar E) (c # r)"
    proof (cases "c = 46")
      case True
      with assms Cons have "dropWhile (isdecimal E) r = [] \<or> is_exponent E (dropWhile (isdecimal E) r)"
        by simp
      then have "list_all (numchar E) (dropWhile (isdecimal E) r)"
      proof
        assume "dropWhile (isdecimal E) r = []"
        then show ?thesis by (simp only: list.pred_inject)
      next
        assume "is_exponent E (dropWhile (isdecimal E) r)"
        then show ?thesis by (rule is_exponent_chars)
      qed
      with d2 have "list_all (numchar E) r" by (rule list_all_takeWhile_dropWhile)
      with True show ?thesis by (simp add: numchar_def)
    next
      case False
      with assms Cons have "is_exponent E (c # r)" by simp
      then show ?thesis by (rule is_exponent_chars)
    qed
    with d1 Cons have "list_all (numchar E) t"
      by (simp add: list_all_takeWhile_dropWhile [of _ "isdecimal E" t])
    moreover from Cons have "t \<noteq> []" by auto
    ultimately show ?thesis by simp
  qed
qed

lemma is_number_chars:
  assumes "is_number E tok"
  shows "tok \<noteq> [] \<and> list_all (numchar E) tok"
proof (cases tok)
  case Nil
  with assms show ?thesis by (simp add: is_number_def)
next
  case (Cons c r)
  show ?thesis
  proof (cases "c = 43 \<or> c = 45")
    case True
    with Cons have t: "(case tok of [] \<Rightarrow> [] | c # r \<Rightarrow> if c = 43 \<or> c = 45 then r else tok) = r"
      by simp
    from assms have "r \<noteq> [] \<and> list_all (numchar E) r"
      unfolding is_number_def Let_def t by (rule mantissa_chars)
    with True Cons show ?thesis by (auto simp: numchar_def)
  next
    case False
    with Cons have t: "(case tok of [] \<Rightarrow> [] | c # r \<Rightarrow> if c = 43 \<or> c = 45 then r else tok) = tok"
      by simp
    from assms show ?thesis
      unfolding is_number_def Let_def t by (rule mantissa_chars)
  qed
qed

lemma takeWhile_run:
  "list_all P xs \<Longrightarrow> ys = [] \<or> \<not> P (hd ys) \<Longrightarrow>
   takeWhile P (xs @ ys) = xs \<and> dropWhile P (xs @ ys) = ys"
proof (induction xs)
  case Nil
  then show ?case by (cases ys) auto
next
  case (Cons x xs)
  then show ?case by simp
qed

lemma re_match_shape:
  assumes ws1: "list_all (isspace E) ws1" and num: "is_number E num"
    and ws2: "list_all (isspace E) ws2" and d: "d = 44 \<or> d = 59" and rest: "10 \<notin> set rest"
  shows "re_match E (ws1 @ num @ ws2 @ d # rest) = Some (ws1, num, ws2, d # rest)"
proof -
  let ?tokc = "\<lambda>c. \<not> isspace E c \<and> c \<noteq> 44 \<and> c \<noteq> 59"
  from is_number_chars [OF num] have ne: "num \<noteq> []" and la: "list_all (numchar E) num" by auto
  from ne la have hdn: "\<not> isspace E (hd num)"
    using numchar_not_space [of E "hd num"] by (cases num) auto
  from la have tok: "list_all ?tokc num"
    using numchar_not_space by (auto simp: list_all_iff)
  from d have dns: "\<not> isspace E d" by (auto simp: isspace_def)
  have s1: "takeWhile (isspace E) (ws1 @ num @ ws2 @ d # rest) = ws1
            \<and> dropWhile (isspace E) (ws1 @ num @ ws2 @ d # rest) = num @ ws2 @ d # rest"
    using takeWhile_run [OF ws1, of "num @ ws2 @ d # rest"] ne hdn by simp
  have "\<not> ?tokc (hd (ws2 @ d # rest))"
    using ws2 d by (cases ws2) auto
  then have s2: "takeWhile ?tokc (num @ ws2 @ d # rest) = num
            \<and> dropWhile ?tokc (num @ ws2 @ d # rest) = ws2 @ d # rest"
    using takeWhile_run [OF tok, of "ws2 @ d # rest"] by simp
  have s3: "takeWhile (isspace E) (ws2 @ d # rest) = ws2
            \<and> dropWhile (isspace E) (ws2 @ d # rest) = d # rest"
    using takeWhile_run [OF ws2, of "d # rest"] dns by simp
  from rest d have l: "last (d # rest) \<noteq> 10" by (cases rest rule: rev_cases) auto
  show ?thesis
    using num d rest l by (auto simp: re_match_def s1 s2 s3 Let_def simp del: last.simps)
qed

section \<open>Substitution on a matched line\<close>

lemma takeWhile_upto: "c \<notin> set xs \<Longrightarrow> takeWhile (\<lambda>x. x \<noteq> c) (xs @ c # ys) = xs"
  by (induction xs) auto

lemma rstrip_crlf_id: "s \<noteq> [] \<Longrightarrow> last s \<noteq> 13 \<Longrightarrow> last s \<noteq> 10 \<Longrightarrow> rstrip_crlf s = s"
  by (cases s rule: rev_cases) (auto simp: rstrip_crlf_def)

lemma space_not_bang: "list_all (isspace E) ws \<Longrightarrow> 33 \<notin> set ws"
  by (auto simp: list_all_iff isspace_def)

lemma number_not_bang: "is_number E num \<Longrightarrow> 33 \<notin> set num"
  using is_number_chars [of E num] numchar_not_space [of E 33] by (auto simp: list_all_iff)

lemma rewrite_line_number:
  assumes ws1: "list_all (isspace E) ws1" and num: "is_number E num"
    and ws2: "list_all (isspace E) ws2" and d: "d = 44 \<or> d = 59"
    and rest: "10 \<notin> set rest" "13 \<notin> set rest" "33 \<notin> set rest"
  shows "rewrite_line E v (ws1 @ num @ ws2 @ d # rest @ 33 # comment)
           = Some (ws1 @ ustr (fmt E v) @ ws2 @ d # rest @ 33 # comment)"
proof -
  let ?content = "ws1 @ num @ ws2 @ d # rest"
  have nb: "33 \<notin> set ?content"
    using space_not_bang [OF ws1] space_not_bang [OF ws2] number_not_bang [OF num] d rest
    by auto
  have line: "ws1 @ num @ ws2 @ d # rest @ 33 # comment = ?content @ 33 # comment" by simp
  have tk: "takeWhile (\<lambda>x. x \<noteq> 33) (?content @ 33 # comment) = ?content"
    using nb by (rule takeWhile_upto)
  have l: "last (d # rest) \<noteq> 13 \<and> last (d # rest) \<noteq> 10"
    using d rest by (cases rest rule: rev_cases) auto
  have "last ?content = last (d # rest)" by simp
  with l have rs: "rstrip_crlf ?content = ?content"
    by (intro rstrip_crlf_id) auto
  have fc: "find_char 33 (?content @ 33 # comment) = length ?content"
    unfolding find_char_def tk ..
  have m: "re_match E ?content = Some (ws1, num, ws2, d # rest)"
    using ws1 num ws2 d rest(1) by (rule re_match_shape)
  show ?thesis
    unfolding line rewrite_line_def fc by (simp add: rs m)
qed

lemma matched_val_active:
  "matched_val (target_fields um st) k = Some v \<Longrightarrow>
   (case current_type st of None \<Rightarrow> False | Some t \<Rightarrow> map_of um t \<noteq> None)"
  by (auto simp: target_fields_def split: option.splits)

lemma in_block_stays: "in_obj st \<Longrightarrow> open_block E um st line = st"
  by (simp add: open_block_def)

lemma spec_record_in_block:
  "patch_line E (build_updates_map E [\<lparr>item_type = ustr ''Zone'', item_name = ustr ''Z1'',
        item_field = ustr ''Some Field'', item_value = v\<rparr>]) in_zone_z1
      (ustr ''ZONE, Z1, 100.0, !- Some Field'')
    = (ustr ''    '' @ ustr (fmt E v) @ ustr '', Z1, 100.0, !- Some Field'', in_zone_z1, True)"
  by (simp add: patch_line_def open_block_def close_and_name_def substitute_def
      target_fields_def field_key_of_def comment_token_def rewrite_line_def re_match_def
      is_number_def split_once_def find_char_def rstrip_crlf_def build_updates_map_def
      add_update_def in_zone_z1_def ustr_def upper_def strip_def isspace_def isdecimal_def
      norm_label_def remove_char_def Let_def)

text \<open>
  C4, as the claim states it: in the block of zone \<open>Z1\<close>, the record
  \<open>ZONE, Z1, 100.0, !- Some Field\<close> with the request \<open>Some Field = 80.0\<close> would become
  \<open>ZONE, Z1, 80.0, !- Some Field\<close>. The pattern is anchored at the start of the line, where
  \<open>ZONE\<close> is no number, so the line takes the fallback: what stands before the first comma is
  replaced by four spaces and the value. As the only line of a document, the record opens
  its block with the name \<open>N/A\<close> and is not changed at all.
\<close>

theorem numeric_token_example_counterexample:
  "fst (patch_line example_env (build_updates_map example_env zone_request) in_zone_z1
         (ustr ''ZONE, Z1, 100.0, !- Some Field''))
     \<noteq> ustr ''ZONE, Z1, 80.0, !- Some Field''
   \<and> fst (patch_line example_env (build_updates_map example_env zone_request) in_zone_z1
         (ustr ''ZONE, Z1, 100.0, !- Some Field''))
     = ustr ''    80.0, Z1, 100.0, !- Some Field''
   \<and> new_lines example_env zone_request [ustr ''ZONE, Z1, 100.0, !- Some Field'']
     = [ustr ''ZONE, Z1, 100.0, !- Some Field'']"
  by code_simp

lemma dropWhile_upto: "c \<notin> set xs \<Longrightarrow> dropWhile (\<lambda>x. x \<noteq> c) (xs @ c # ys) = c # ys"
  by (induction xs) auto

lemma rewrite_line_fallback:
  assumes a: "33 \<notin> set a" "44 \<notin> set a" and b: "33 \<notin> set b"
    and m: "re_match E (rstrip_crlf (a @ 44 # b)) = None"
  shows "rewrite_line E v (a @ 44 # b @ 33 # comment)
           = Some (ustr ''    '' @ ustr (fmt E v) @ 44 # b @ 33 # comment)"
proof -
  let ?content = "a @ 44 # b"
  have nb: "33 \<notin> set ?content" using a b by simp
  have line: "a @ 44 # b @ 33 # comment = ?content @ 33 # comment" by simp
  have tk: "takeWhile (\<lambda>x. x \<noteq> 33) (?content @ 33 # comment) = ?content"
    using nb by (rule takeWhile_upto)
  have fc: "find_char 33 (?content @ 33 # comment) = length ?content"
    unfolding find_char_def tk ..
  have sp: "split_once 44 ?content = [a, b]"
    using a(2) by (simp add: split_once_def takeWhile_upto dropWhile_upto)
  have c: "ustr '','' = [44]" by (simp add: ustr_def)
  show ?thesis
    unfolding line rewrite_line_def fc by (simp add: m sp c)
qed

lemma patch_line_matched:
  assumes "in_obj st" and "33 \<in> set line"
    and "matched_val (target_fields um (close_and_name E st line)) (field_key_of E line) = Some v"
    and "rewrite_line E v line = Some l"
  shows "patch_line E um st line = (l, close_and_name E st line, True)"
proof -
  from matched_val_active [OF assms(3)] assms(2,3,4)
  have "substitute E um (close_and_name E st line) line = Some l"
    unfolding substitute_def by simp
  with assms(1) show ?thesis by (simp add: patch_line_def in_block_stays)
qed

lemma one_request_count:
  assumes "mods_loop E idfobjects modifications [] = Inr [r]"
    and "list_all (\<lambda>c. utf8_enc1 c \<noteq> None) (linesep E)"
  shows "\<exists>out. execute_modification E idfobjects file modifications = Inr (1, out)
           \<and> utf8_encode (write_newlines E (concat (new_lines E [r] (snd (read_source file)))))
               = Some out"
proof -
  from save_succeeds [OF assms(2), of "[r]" "file"]
  obtain out where "save_with_text_replacement E [r] file = Inr out"
    and "utf8_encode (write_newlines E (concat (new_lines E [r] (snd (read_source file))))) = Some out"
    by blast
  with assms(1) show ?thesis by (simp add: execute_modification_def)
qed

text \<open>
  C4, amended. In a block, on a matched line that is white space, a numeric literal, white
  space, a comma or semicolon and the rest of the line (with no line break before the
  comment), only the numeric literal is replaced by the new value: the leading white space,
  the white space after the number, the delimiter, what follows it and the comment stay as
  they are, and the line counts as substituted. On a matched line where the pattern does
  not match the text before the comment and that text has a comma, what stands before the
  first comma is replaced by four spaces and the new value; the comma, what follows it and the
  comment stay as they are, and the line counts as substituted. So, in every environment,
  the record \<open>ZONE, Z1, 100.0, !- Some Field\<close> in the block of zone \<open>Z1\<close> becomes four
  spaces, the value and \<open>, Z1, 100.0, !- Some Field\<close>; and where the requests built are
  one Update Request, the document is written and the number returned is 1.
\<close>

theorem numeric_token_replaced:
  assumes "in_obj st"
    and "list_all (isspace E) ws1" and "is_number E num" and "list_all (isspace E) ws2"
    and "d = 44 \<or> d = 59" and "10 \<notin> set rest" and "13 \<notin> set rest" and "33 \<notin> set rest"
    and "matched_val (target_fields um (close_and_name E st (ws1 @ num @ ws2 @ d # rest @ 33 # comment)))
           (field_key_of E (ws1 @ num @ ws2 @ d # rest @ 33 # comment)) = Some v"
    and "33 \<notin> set a" and "44 \<notin> set a" and "33 \<notin> set b"
    and "re_match E (rstrip_crlf (a @ 44 # b)) = None"
    and "matched_val (target_fields um (close_and_name E st (a @ 44 # b @ 33 # comment')))
           (field_key_of E (a @ 44 # b @ 33 # comment')) = Some v'"
    and "mods_loop E idfobjects modifications [] = Inr [r]"
    and "list_all (\<lambda>c. utf8_enc1 c \<noteq> None) (linesep E)"
  shows "patch_line E um st (ws1 @ num @ ws2 @ d # rest @ 33 # comment)
           = (ws1 @ ustr (fmt E v) @ ws2 @ d # rest @ 33 # comment,
              close_and_name E st (ws1 @ num @ ws2 @ d # rest @ 33 # comment), True)
         \<and> patch_line E um st (a @ 44 # b @ 33 # comment')
           = (ustr ''    '' @ ustr (fmt E v') @ 44 # b @ 33 # comment',
              close_and_name E st (a @ 44 # b @ 33 # comment'), True)
         \<and> patch_line E (build_updates_map E [\<lparr>item_type = ustr ''Zone'', item_name = ustr ''Z1'',
               item_field = ustr ''Some Field'', item_value = w\<rparr>]) in_zone_z1
             (ustr ''ZONE, Z1, 100.0, !- Some Field'')
           = (ustr ''    '' @ ustr (fmt E w) @ ustr '', Z1, 100.0, !- Some Field'', in_zone_z1, True)
         \<and> (\<exists>out. execute_modification E idfobjects file modifications = Inr (1, out)
               \<and> utf8_encode (write_newlines E (concat (new_lines E [r] (snd (read_source file)))))
                   = Some out)"
proof -
  let ?line = "ws1 @ num @ ws2 @ d # rest @ 33 # comment"
  let ?line' = "a @ 44 # b @ 33 # comment'"
  have "rewrite_line E v ?line = Some (ws1 @ ustr (fmt E v) @ ws2 @ d # rest @ 33 # comment)"
    using assms(2-8) by (rule rewrite_line_number)
  with assms(1) _ assms(9)
  have n: "patch_line E um st ?line
           = (ws1 @ ustr (fmt E v) @ ws2 @ d # rest @ 33 # comment, close_and_name E st ?line, True)"
    by (rule patch_line_matched) simp
  have "rewrite_line E v' ?line' = Some (ustr ''    '' @ ustr (fmt E v') @ 44 # b @ 33 # comment')"
    using assms(10-13) by (rule rewrite_line_fallback)
  with assms(1) _ assms(14)
  have f: "patch_line E um st ?line'
           = (ustr ''    '' @ ustr (fmt E v') @ 44 # b @ 33 # comment', close_and_name E st ?line', True)"
    by (rule patch_line_matched) simp
  from n f spec_record_in_block [of E w] one_request_count [OF assms(15,16), of "file"]
  show ?thesis by (intro conjI)
qed

theorem numeric_token_replaced_witness:
  "in_obj in_zone_z1
   \<and> list_all (isspace example_env) (ustr ''    '') \<and> is_number example_env (ustr ''100.0'')
   \<and> list_all (isspace example_env) (ustr '' '') \<and> 10 \<notin> set (ustr ''  '')
   \<and> 13 \<notin> set (ustr ''  '') \<and> 33 \<notin> set (ustr ''  '')
   \<and> 33 \<notin> set (ustr ''ZONE'') \<and> 44 \<notin> set (ustr ''ZONE'') \<and> 33 \<notin> set (ustr '' Z1, 100.0, '')
   \<and> re_match example_env (rstrip_crlf (ustr ''ZONE'' @ 44 # ustr '' Z1, 100.0, '')) = None
   \<and> mods_loop example_env zone_idf
        [\<lparr>object_type = ustr ''ZONE'', mod_fields = [ustr ''Some Field''], coef = 2\<rparr>] []
      = Inr [\<lparr>item_type = ustr ''ZONE'', item_name = ustr ''Z1'', item_field = ustr ''Some_Field'',
               item_value = 200\<rparr>]
   \<and> list_all (\<lambda>c. utf8_enc1 c \<noteq> None) (linesep example_env)
   \<and> patch_line example_env (build_updates_map example_env zone_request) in_zone_z1
        (ustr ''    '' @ ustr ''100.0'' @ ustr '' '' @ 44 # ustr ''  '' @ 33 # ustr ''- Some Field'')
      = (ustr ''    80.0 ,  !- Some Field'', in_zone_z1, True)
   \<and> patch_line example_env (build_updates_map example_env zone_request) in_zone_z1
        (ustr ''ZONE'' @ 44 # ustr '' Z1, 100.0, '' @ 33 # ustr ''- Some Field'')
      = (ustr ''    80.0, Z1, 100.0, !- Some Field'', in_zone_z1, True)
   \<and> execute_modification example_env zone_idf zone_file_record
        [\<lparr>object_type = ustr ''ZONE'', mod_fields = [ustr ''Some Field''], coef = 2\<rparr>]
      = Inr (1, ''ZONE,\<newline>  Z1,  !- Name\<newline>    200.0, Z1, 100.0, !- Some Field\<newline>'')"
proof -
  let ?um = "build_updates_map example_env zone_request"
  let ?n = "ustr ''    '' @ ustr ''100.0'' @ ustr '' '' @ 44 # ustr ''  '' @ 33 # ustr ''- Some Field''"
  let ?f = "ustr ''ZONE'' @ 44 # ustr '' Z1, 100.0, '' @ 33 # ustr ''- Some Field''"
  let ?mods = "[\<lparr>object_type = ustr ''ZONE'', mod_fields = [ustr ''Some Field''], coef = 2::int\<rparr>]"
  let ?r = "\<lparr>item_type = ustr ''ZONE'', item_name = ustr ''Z1'', item_field = ustr ''Some_Field'',
             item_value = 200::int\<rparr>"
  have h1: "in_obj in_zone_z1" by code_simp
  have h2: "list_all (isspace example_env) (ustr ''    '')" by code_simp
  have h3: "is_number example_env (ustr ''100.0'')" by code_simp
  have h4: "list_all (isspace example_env) (ustr '' '')" by code_simp
  have h5: "(44::nat) = 44 \<or> (44::nat) = 59" by simp
  have h6: "10 \<notin> set (ustr ''  '')" by code_simp
  have h7: "13 \<notin> set (ustr ''  '')" by code_simp
  have h8: "33 \<notin> set (ustr ''  '')" by code_simp
  have h9: "matched_val (target_fields ?um (close_and_name example_env in_zone_z1 ?n))
              (field_key_of example_env ?n) = Some 80"
    by code_simp
  have h10: "33 \<notin> set (ustr ''ZONE'')" by code_simp
  have h11: "44 \<notin> set (ustr ''ZONE'')" by code_simp
  have h12: "33 \<notin> set (ustr '' Z1, 100.0, '')" by code_simp
  have h13: "re_match example_env (rstrip_crlf (ustr ''ZONE'' @ 44 # ustr '' Z1, 100.0, '')) = None"
    by code_simp
  have h14: "matched_val (target_fields ?um (close_and_name example_env in_zone_z1 ?f))
              (field_key_of example_env ?f) = Some 80"
    by code_simp
  have h15: "mods_loop example_env zone_idf ?mods [] = Inr [?r]" by code_simp
  have h16: "list_all (\<lambda>c. utf8_enc1 c \<noteq> None) (linesep example_env)" by code_simp
  have c1: "close_and_name example_env in_zone_z1 ?n = in_zone_z1" by code_simp
  have c2: "close_and_name example_env in_zone_z1 ?f = in_zone_z1" by code_simp
  have o1: "ustr ''    '' @ ustr (fmt example_env 80) @ ustr '' '' @ 44 # ustr ''  '' @ 33 # ustr ''- Some Field''
           = ustr ''    80.0 ,  !- Some Field''"
    by code_simp
  have o2: "ustr ''    '' @ ustr (fmt example_env 80) @ 44 # ustr '' Z1, 100.0, '' @ 33 # ustr ''- Some Field''
           = ustr ''    80.0, Z1, 100.0, !- Some Field''"
    by code_simp
  have o3: "utf8_encode (write_newlines example_env (concat (new_lines example_env [?r]
              (snd (read_source zone_file_record)))))
            = Some ''ZONE,\<newline>  Z1,  !- Name\<newline>    200.0, Z1, 100.0, !- Some Field\<newline>''"
    by code_simp
  note t = numeric_token_replaced [OF h1 h2 h3 h4 h5 h6 h7 h8 h9 h10 h11 h12 h13 h14 h15 h16,
      of 0 zone_file_record]
  from t have p1: "patch_line example_env ?um in_zone_z1 ?n
      = (ustr ''    80.0 ,  !- Some Field'', in_zone_z1, True)"
    unfolding c1 o1 by blast
  from t have p2: "patch_line example_env ?um in_zone_z1 ?f
      = (ustr ''    80.0, Z1, 100.0, !- Some Field'', in_zone_z1, True)"
    unfolding c2 o2 by blast
  from t obtain out where "execute_modification example_env zone_idf zone_file_record ?mods = Inr (1, out)"
    and "utf8_encode (write_newlines example_env (concat (new_lines example_env [?r]
              (snd (read_source zone_file_record))))) = Some out"
    by blast
  with o3 have p3: "execute_modification example_env zone_idf zone_file_record ?mods
      = Inr (1, ''ZONE,\<newline>  Z1,  !- Name\<newline>    200.0, Z1, 100.0, !- Some Field\<newline>'')"
    by simp
  from h1 h2 h3 h4 h6 h7 h8 h10 h11 h12 h13 h15 h16 p1 p2 p3 show ?thesis by (intro conjI)
qed

section \<open>Matching of field labels\<close>

lemma norm_label_append: "norm_label (a @ b) = norm_label a @ norm_label b"
  by (simp add: norm_label_def remove_char_def)

lemma upper_Cons: "upper E (c # s) = upper E [c] @ upper E s"
  by (simp add: upper_def)

lemma norm_label_upper: "norm_label (upper E (norm_label a)) = norm_label (upper E a)"
proof (induction a)
  case Nil
  then show ?case by (simp add: norm_label_def remove_char_def)
next
  case (Cons c a)
  have n: "norm_label (c # a) = (if c = 32 \<or> c = 95 then norm_label a else c # norm_label a)"
    by (auto simp: norm_label_def remove_char_def)
  have u: "c = 32 \<or> c = 95 \<Longrightarrow> norm_label (upper E [c]) = []"
    by (auto simp: norm_label_def remove_char_def upper_def)
  show ?case
  proof (cases "c = 32 \<or> c = 95")
    case True
    with u have "norm_label (upper E (c # a)) = norm_label (upper E a)"
      by (subst upper_Cons) (simp add: norm_label_append)
    with True n Cons.IH show ?thesis by simp
  next
    case False
    with n have "norm_label (upper E (norm_label (c # a)))
                   = norm_label (upper E [c]) @ norm_label (upper E (norm_label a))"
      by (simp add: upper_Cons [of E c "norm_label a"] norm_label_append)
    also have "\<dots> = norm_label (upper E [c]) @ norm_label (upper E a)"
      by (simp add: Cons.IH)
    also have "\<dots> = norm_label (upper E (c # a))"
      by (simp add: upper_Cons [of E c a] norm_label_append)
    finally show ?thesis .
  qed
qed

lemma matched_val_norm_key:
  "norm_label k1 = norm_label k2 \<Longrightarrow> matched_val fs k1 = matched_val fs k2"
  by (induction fs) auto

lemma watts_key:
  "field_key_of E (ustr ''    10.76,  !- Watts_per_Zone_Floor_Area'')
     = ustr ''WATTS_PER_ZONE_FLOOR_AREA''"
  by (simp add: field_key_of_def comment_token_def ustr_def upper_def strip_def isspace_def
      Let_def)

lemma watts_label: "upper E (ustr ''Watts per Zone Floor Area'') = ustr ''WATTS PER ZONE FLOOR AREA''"
  by (simp add: ustr_def upper_def)

lemma watts_match:
  "matched_val ((ustr ''WATTS PER ZONE FLOOR AREA'', v) # rest) (ustr ''WATTS_PER_ZONE_FLOOR_AREA'')
     = Some v"
  by (simp add: norm_label_def remove_char_def ustr_def)

lemma watts_line:
  "patch_line E (build_updates_map E [\<lparr>item_type = ustr ''Lights'', item_name = ustr ''L1'',
        item_field = ustr ''Watts per Zone Floor Area'', item_value = v\<rparr>]) in_lights_l1
      (ustr ''    10.76,  !- Watts_per_Zone_Floor_Area'')
    = (ustr ''    '' @ ustr (fmt E v) @ ustr '',  !- Watts_per_Zone_Floor_Area'', in_lights_l1, True)"
  by (simp add: patch_line_def open_block_def close_and_name_def substitute_def
      target_fields_def field_key_of_def comment_token_def rewrite_line_def re_match_def
      is_number_def split_once_def find_char_def rstrip_crlf_def build_updates_map_def
      add_update_def in_lights_l1_def ustr_def upper_def strip_def isspace_def isdecimal_def
      norm_label_def remove_char_def Let_def)

lemma lower_ascii:
  assumes "list_all (\<lambda>c. c < 128) s"
  shows "lower E s = map (\<lambda>c. if 65 \<le> c \<and> c \<le> 90 then c + 32 else c) s"
proof -
  let ?g = "\<lambda>c::nat. if 65 \<le> c \<and> c \<le> 90 then c + 32 else c"
  have m: "map (\<lambda>i. if s ! i < 128 then [?g (s ! i)] else ulower E s i) [0..<length s]
          = map (\<lambda>i. [?g (s ! i)]) [0..<length s]"
    using assms by (auto simp: list_all_length)
  have "lower E s = concat (map (\<lambda>i. [?g (s ! i)]) [0..<length s])"
    unfolding lower_def by (rule arg_cong [OF m])
  also have "\<dots> = map (\<lambda>i. ?g (s ! i)) [0..<length s]"
    by (rule concat_map_singleton)
  also have "\<dots> = map ?g (map ((!) s) [0..<length s])"
    by simp
  also have "\<dots> = map ?g s"
    by (simp only: map_nth)
  finally show ?thesis .
qed

lemma watts_attr:
  "find_target_attr E (map ustr [''key'', ''Name'', ''Watts_per_Zone_Floor_Area''])
     (ustr '' watts per zone floor area '') = Some (ustr ''Watts_per_Zone_Floor_Area'')"
proof -
  have s: "strip E (ustr '' watts per zone floor area '') = ustr ''watts per zone floor area''"
    by (simp add: strip_def isspace_def ustr_def)
  have l1: "lower E (ustr ''watts per zone floor area'') = ustr ''watts per zone floor area''"
    by (subst lower_ascii) (simp_all add: ustr_def)
  have l2: "lower E (ustr ''key'') = ustr ''key''"
    by (subst lower_ascii) (simp_all add: ustr_def)
  have l3: "lower E (ustr ''Name'') = ustr ''name''"
    by (subst lower_ascii) (simp_all add: ustr_def)
  have l4: "lower E (ustr ''Watts_per_Zone_Floor_Area'') = ustr ''watts_per_zone_floor_area''"
    by (subst lower_ascii) (simp_all add: ustr_def)
  show ?thesis
    unfolding find_target_attr_def norm_field_of_def s l1
    by (simp add: l2 l3 l4) (simp add: remove_char_def ustr_def)
qed

lemma upper_ascii:
  "list_all (\<lambda>c. c < 128) s \<Longrightarrow> upper E s = map (\<lambda>c. if 97 \<le> c \<and> c \<le> 122 then c - 32 else c) s"
  by (induction s) (auto simp: upper_def)

lemma norm_label_upper_ascii:
  assumes "list_all (\<lambda>c. c < 128) s"
  shows "norm_label (upper E s)
           = map (\<lambda>c. if 97 \<le> c \<and> c \<le> 122 then c - 32 else c) (filter (\<lambda>c. c \<noteq> 32 \<and> c \<noteq> 95) s)"
proof -
  have "norm_label (map (\<lambda>c. if 97 \<le> c \<and> c \<le> 122 then c - 32 else c) s)
           = map (\<lambda>c. if 97 \<le> c \<and> c \<le> 122 then c - 32 else c) (filter (\<lambda>c. c \<noteq> 32 \<and> c \<noteq> 95) s)"
    by (induction s) (auto simp: norm_label_def remove_char_def)
  with upper_ascii [OF assms, of E] show ?thesis by simp
qed

lemma norm_field_of_ascii:
  assumes "list_all (\<lambda>c. c < 128) s"
  shows "norm_field_of E s
           = map (\<lambda>c. if 65 \<le> c \<and> c \<le> 90 then c + 32 else c) (filter (\<lambda>c. c \<noteq> 32 \<and> c \<noteq> 95) s)"
proof -
  have "remove_char 32 (remove_char 95 (map (\<lambda>c. if 65 \<le> c \<and> c \<le> 90 then c + 32 else c) s))
           = map (\<lambda>c. if 65 \<le> c \<and> c \<le> 90 then c + 32 else c) (filter (\<lambda>c. c \<noteq> 32 \<and> c \<noteq> 95) s)"
    by (induction s) (auto simp: remove_char_def)
  with lower_ascii [OF assms, of E] show ?thesis by (simp add: norm_field_of_def)
qed

lemma find_target_attr_field:
  "norm_field_of E (strip E f1) = norm_field_of E (strip E f2) \<Longrightarrow>
   find_target_attr E valid f1 = find_target_attr E valid f2"
  by (simp add: find_target_attr_def)

lemma find_norm_attrs:
  "map n valid1 = map n valid2 \<Longrightarrow>
   map_option n (find (\<lambda>a. n a = x) valid1) = map_option n (find (\<lambda>a. n a = x) valid2)"
proof (induction valid1 arbitrary: valid2)
  case Nil
  then show ?case by simp
next
  case (Cons a as)
  then obtain b bs where "valid2 = b # bs" "n a = n b" "map n as = map n bs" by (cases valid2) auto
  with Cons.IH [of bs] show ?case by simp
qed

lemma find_target_attr_attrs:
  "map (norm_field_of E) valid1 = map (norm_field_of E) valid2 \<Longrightarrow>
   map_option (norm_field_of E) (find_target_attr E valid1 f)
     = map_option (norm_field_of E) (find_target_attr E valid2 f)"
  unfolding find_target_attr_def by (rule find_norm_attrs)

text \<open>
  C5, as the claim states it: matching would not depend on the white space inside a label.
  Only the space character and the underscore are removed before the comparison (lines 180,
  182 and 255). A pending label with a tab between its first two words does not match the
  line commented \<open>!- Watts per Zone Floor Area\<close>; the pending label
  \<open>Watts per Zone Floor Area\<close> does not match a line whose comment has the tab, and the line
  is copied; and when the Update Set is built, the field with the tab finds no attribute.
\<close>

theorem label_tab_counterexample:
  "matched_val [(upper example_env (ustr ''Watts'' @ 9 # ustr ''per Zone Floor Area''), 7::int)]
      (field_key_of example_env (ustr ''    10.76,  !- Watts per Zone Floor Area'')) = None
   \<and> matched_val [(upper example_env (ustr ''Watts per Zone Floor Area''), 7::int)]
      (field_key_of example_env (ustr ''    10.76,  !- Watts'' @ 9 # ustr ''per Zone Floor Area'')) = None
   \<and> patch_line example_env (build_updates_map example_env
          [\<lparr>item_type = ustr ''Lights'', item_name = ustr ''L1'',
            item_field = ustr ''Watts per Zone Floor Area'', item_value = 7\<rparr>]) in_lights_l1
        (ustr ''    10.76,  !- Watts'' @ 9 # ustr ''per Zone Floor Area'')
      = (ustr ''    10.76,  !- Watts'' @ 9 # ustr ''per Zone Floor Area'', in_lights_l1, False)
   \<and> find_target_attr example_env (map ustr [''key'', ''Name'', ''Watts_per_Zone_Floor_Area''])
        (ustr ''Watts'' @ 9 # ustr ''per Zone Floor Area'') = None"
  by code_simp

text \<open>
  C5, amended. Whether a pending field label matches the label of a line depends on both only
  up to case, space characters and underscores: the pending label is stored in upper case
  and compared without spaces and underscores, and so is the label read from the comment.
  Two pending labels that agree in upper case without spaces and underscores give the same
  result on any two line labels that agree without them, and removing spaces and underscores
  from a pending label changes nothing. The pending label \<open>Watts per Zone Floor Area\<close>
  matches a line whose comment is \<open>!- Watts_per_Zone_Floor_Area\<close>, and the line is
  rewritten. When the Update Set is built, the attribute found depends on the field asked
  for, stripped, and on the field names of the instance only up to case, spaces and
  underscores, and the field \<open>watts per zone floor area\<close> finds the attribute
  \<open>Watts_per_Zone_Floor_Area\<close>. For a label of ASCII characters, what is compared is the
  label without its spaces and underscores, with its letters in one case. Other white space
  inside a label is not removed.
\<close>

theorem label_matching_insensitive:
  assumes "norm_label (upper E a) = norm_label (upper E b)" and "norm_label k1 = norm_label k2"
    and "norm_field_of E (strip E f1) = norm_field_of E (strip E f2)"
    and "map (norm_field_of E) valid1 = map (norm_field_of E) valid2"
    and "list_all (\<lambda>c. c < 128) s"
  shows "matched_val ((upper E a, v) # rest) k1 = matched_val ((upper E b, v) # rest) k2
     \<and> norm_label (upper E (norm_label a)) = norm_label (upper E a)
     \<and> matched_val ((upper E (ustr ''Watts per Zone Floor Area''), v) # rest)
         (field_key_of E (ustr ''    10.76,  !- Watts_per_Zone_Floor_Area'')) = Some v
     \<and> patch_line E (build_updates_map E [\<lparr>item_type = ustr ''Lights'', item_name = ustr ''L1'',
           item_field = ustr ''Watts per Zone Floor Area'', item_value = v\<rparr>]) in_lights_l1
         (ustr ''    10.76,  !- Watts_per_Zone_Floor_Area'')
       = (ustr ''    '' @ ustr (fmt E v) @ ustr '',  !- Watts_per_Zone_Floor_Area'',
          in_lights_l1, True)
     \<and> find_target_attr E (map ustr [''key'', ''Name'', ''Watts_per_Zone_Floor_Area''])
         (ustr '' watts per zone floor area '') = Some (ustr ''Watts_per_Zone_Floor_Area'')
     \<and> find_target_attr E valid1 f1 = find_target_attr E valid1 f2
     \<and> map_option (norm_field_of E) (find_target_attr E valid1 f1)
       = map_option (norm_field_of E) (find_target_attr E valid2 f1)
     \<and> norm_label (upper E s)
       = map (\<lambda>c. if 97 \<le> c \<and> c \<le> 122 then c - 32 else c) (filter (\<lambda>c. c \<noteq> 32 \<and> c \<noteq> 95) s)
     \<and> norm_field_of E s
       = map (\<lambda>c. if 65 \<le> c \<and> c \<le> 90 then c + 32 else c) (filter (\<lambda>c. c \<noteq> 32 \<and> c \<noteq> 95) s)"
proof -
  have "matched_val ((upper E a, v) # rest) k1 = matched_val ((upper E a, v) # rest) k2"
    using assms(2) by (rule matched_val_norm_key)
  also have "\<dots> = matched_val ((upper E b, v) # rest) k2"
    using assms(1) by simp
  finally have 1: "matched_val ((upper E a, v) # rest) k1 = matched_val ((upper E b, v) # rest) k2" .
  have 3: "matched_val ((upper E (ustr ''Watts per Zone Floor Area''), v) # rest)
         (field_key_of E (ustr ''    10.76,  !- Watts_per_Zone_Floor_Area'')) = Some v"
    unfolding watts_key watts_label by (rule watts_match)
  from 1 norm_label_upper [of E a] 3 watts_line [of E v] watts_attr [of E]
    find_target_attr_field [OF assms(3), of valid1] find_target_attr_attrs [OF assms(4), of f1]
    norm_label_upper_ascii [OF assms(5), of E] norm_field_of_ascii [OF assms(5), of E]
  show ?thesis by (intro conjI)
qed

theorem label_matching_insensitive_witness:
  "norm_label (upper example_env (ustr ''Watts per Floor Area''))
     = norm_label (upper example_env (ustr ''watts_per_floor_area''))
   \<and> norm_label (ustr ''WATTS_PER_FLOOR_AREA'') = norm_label (ustr ''WATTS PER FLOOR AREA'')
   \<and> norm_field_of example_env (strip example_env (ustr '' Watts per Floor Area ''))
     = norm_field_of example_env (strip example_env (ustr ''watts_per_floor_area''))
   \<and> map (norm_field_of example_env) [ustr ''key'', ustr ''Watts_per_Floor_Area'']
     = map (norm_field_of example_env) [ustr ''KEY'', ustr ''WATTS PER FLOOR AREA'']
   \<and> list_all (\<lambda>c. c < 128) (ustr ''Watts per_Floor Area'')
   \<and> matched_val [(upper example_env (ustr ''Watts per Floor Area''), 7)] (ustr ''WATTS_PER_FLOOR_AREA'')
       = Some (7::int)
   \<and> matched_val [(upper example_env (ustr ''watts_per_floor_area''), 7)] (ustr ''WATTS PER FLOOR AREA'')
       = Some (7::int)
   \<and> find_target_attr example_env [ustr ''key'', ustr ''Watts_per_Floor_Area'']
        (ustr '' Watts per Floor Area '') = Some (ustr ''Watts_per_Floor_Area'')
   \<and> find_target_attr example_env [ustr ''key'', ustr ''Watts_per_Floor_Area'']
        (ustr ''watts_per_floor_area'') = Some (ustr ''Watts_per_Floor_Area'')
   \<and> norm_field_of example_env (ustr ''Watts per_Floor Area'') = ustr ''wattsperfloorarea''
   \<and> norm_label (upper example_env (ustr ''Watts per_Floor Area'')) = ustr ''WATTSPERFLOORAREA''"
proof -
  let ?v1 = "[ustr ''key'', ustr ''Watts_per_Floor_Area'']"
  let ?v2 = "[ustr ''KEY'', ustr ''WATTS PER FLOOR AREA'']"
  let ?g = "\<lambda>c::nat. if 97 \<le> c \<and> c \<le> 122 then c - 32 else c"
  let ?h = "\<lambda>c::nat. if 65 \<le> c \<and> c \<le> 90 then c + 32 else c"
  have h1: "norm_label (upper example_env (ustr ''Watts per Floor Area''))
     = norm_label (upper example_env (ustr ''watts_per_floor_area''))"
    by code_simp
  have h2: "norm_label (ustr ''WATTS_PER_FLOOR_AREA'') = norm_label (ustr ''WATTS PER FLOOR AREA'')"
    by code_simp
  have h3: "norm_field_of example_env (strip example_env (ustr '' Watts per Floor Area ''))
     = norm_field_of example_env (strip example_env (ustr ''watts_per_floor_area''))"
    by code_simp
  have h4: "map (norm_field_of example_env) ?v1 = map (norm_field_of example_env) ?v2"
    by code_simp
  have h5: "list_all (\<lambda>c. c < 128) (ustr ''Watts per_Floor Area'')" by code_simp
  have e: "matched_val [(upper example_env (ustr ''Watts per Floor Area''), 7)]
             (ustr ''WATTS_PER_FLOOR_AREA'') = Some (7::int)"
    by code_simp
  have f: "find_target_attr example_env ?v1 (ustr '' Watts per Floor Area '')
             = Some (ustr ''Watts_per_Floor_Area'')"
    by code_simp
  have u: "map ?g (filter (\<lambda>c. c \<noteq> 32 \<and> c \<noteq> 95) (ustr ''Watts per_Floor Area''))
             = ustr ''WATTSPERFLOORAREA''"
    by code_simp
  have l: "map ?h (filter (\<lambda>c. c \<noteq> 32 \<and> c \<noteq> 95) (ustr ''Watts per_Floor Area''))
             = ustr ''wattsperfloorarea''"
    by code_simp
  note t = label_matching_insensitive [OF h1 h2 h3 h4 h5, where v = "7::int" and rest = "[]"]
  from t have "matched_val [(upper example_env (ustr ''Watts per Floor Area''), 7::int)]
          (ustr ''WATTS_PER_FLOOR_AREA'')
        = matched_val [(upper example_env (ustr ''watts_per_floor_area''), 7::int)]
          (ustr ''WATTS PER FLOOR AREA'')"
    by (rule conjunct1)
  from this [symmetric] e
  have e': "matched_val [(upper example_env (ustr ''watts_per_floor_area''), 7)]
          (ustr ''WATTS PER FLOOR AREA'') = Some (7::int)"
    by (rule trans)
  from t have "find_target_attr example_env ?v1 (ustr '' Watts per Floor Area '')
        = find_target_attr example_env ?v1 (ustr ''watts_per_floor_area'')"
    by blast
  from this [symmetric] f
  have f': "find_target_attr example_env ?v1 (ustr ''watts_per_floor_area'')
             = Some (ustr ''Watts_per_Floor_Area'')"
    by (rule trans)
  from t have "norm_label (upper example_env (ustr ''Watts per_Floor Area''))
       = map ?g (filter (\<lambda>c. c \<noteq> 32 \<and> c \<noteq> 95) (ustr ''Watts per_Floor Area''))"
    by blast
  from this u have u': "norm_label (upper example_env (ustr ''Watts per_Floor Area'')) = ustr ''WATTSPERFLOORAREA''"
    by (rule trans)
  from t have "norm_field_of example_env (ustr ''Watts per_Floor Area'')
       = map ?h (filter (\<lambda>c. c \<noteq> 32 \<and> c \<noteq> 95) (ustr ''Watts per_Floor Area''))"
    by blast
  from this l have l': "norm_field_of example_env (ustr ''Watts per_Floor Area'') = ustr ''wattsperfloorarea''"
    by (rule trans)
  from h1 h2 h3 h4 h5 e e' f f' l' u' show ?thesis by (intro conjI)
qed

section \<open>Building the Update Set\<close>

lemma fields_loop_append:
  "fields_loop E t obj c (fs1 @ fs2) acc
     = (case fields_loop E t obj c fs1 acc of
          Inl e \<Rightarrow> Inl e
        | Inr acc' \<Rightarrow> fields_loop E t obj c fs2 acc')"
  by (induction fs1 arbitrary: acc) (auto split: sum.splits)

lemma fields_loop_skip:
  "field_update E t obj c field = Inr [] \<Longrightarrow>
   fields_loop E t obj c (fs1 @ field # fs2) acc = fields_loop E t obj c (fs1 @ fs2) acc"
  by (auto simp: fields_loop_append [of E t obj c fs1] split: sum.splits)

lemma field_update_text:
  assumes "find_target_attr E (fieldnames obj) field = Some a" and "a \<noteq> []"
    and "attrs obj a = Some (PStr s)" and "s \<noteq> []" and "float_of_str E s = None"
  shows "field_update E t obj c field = Inr []"
  using assms by (simp add: field_update_def py_float_def)

lemma field_update_empty:
  assumes "find_target_attr E (fieldnames obj) field = Some a" and "a \<noteq> []"
    and "attrs obj a = Some (PStr [])"
  shows "field_update E t obj c field
           = Inr [\<lparr>item_type = t,
                   item_name = (case obj_name obj of None \<Rightarrow> ustr ''N/A'' | Some n \<Rightarrow> n),
                   item_field = a, item_value = scale_round E (float_zero E) c\<rparr>]"
  using assms by (simp add: field_update_def)

lemma objects_loop_skip:
  "list_all (\<lambda>obj. field_update E t obj c field = Inr []) objs \<Longrightarrow>
   objects_loop E t c (fs1 @ field # fs2) objs acc = objects_loop E t c (fs1 @ fs2) objs acc"
  by (induction objs arbitrary: acc) (auto simp: fields_loop_skip split: sum.splits)

lemma mods_loop_append:
  "mods_loop E idfobjects (ms1 @ ms2) acc
     = (case mods_loop E idfobjects ms1 acc of
          Inl e \<Rightarrow> Inl e
        | Inr acc' \<Rightarrow> mods_loop E idfobjects ms2 acc')"
  by (induction ms1 arbitrary: acc) (auto split: option.splits sum.splits)

lemma mods_loop_skip:
  assumes "list_all (\<lambda>obj. field_update E (object_type m) obj (coef m) field = Inr [])
             (case idfobjects (object_type m) of None \<Rightarrow> [] | Some objs \<Rightarrow> objs)"
    and "mod_fields m = pre @ field # post"
  shows "mods_loop E idfobjects (ms1 @ m # ms2) acc
           = mods_loop E idfobjects (ms1 @ m\<lparr>mod_fields := pre @ post\<rparr> # ms2) acc"
proof -
  have step: "mods_loop E idfobjects (m # ms2) acc' = mods_loop E idfobjects (m\<lparr>mod_fields := pre @ post\<rparr> # ms2) acc'"
    for acc'
  proof (cases "idfobjects (object_type m)")
    case None
    then show ?thesis by simp
  next
    case (Some objs)
    with assms(1) have "objects_loop E (object_type m) (coef m) (pre @ field # post) objs acc'
                          = objects_loop E (object_type m) (coef m) (pre @ post) objs acc'"
      by (simp add: objects_loop_skip)
    with Some assms(2) show ?thesis by simp
  qed
  show ?thesis by (simp only: mods_loop_append [of E idfobjects ms1] step)
qed

lemma patch_line_unmatched:
  assumes "matched_val (target_fields um (close_and_name E (open_block E um st line) line))
             (field_key_of E line) = None"
  shows "fst (patch_line E um st line) = line \<and> \<not> snd (snd (patch_line E um st line))"
  using assms by (simp add: patch_line_def substitute_def Let_def)

text \<open>
  C7, as the claim states it: a field whose value is the empty string would give no Update
  Request and would not count, and the text of a field that is skipped would stay as it is.
  For the zone \<open>Z1\<close>, whose field \<open>Other\<close> is empty, the program emits a request with the
  value \<open>0.0\<close> scaled, and the request for \<open>Other\<close> alone makes \<open>execute_modification\<close>
  return 1; where the line of the empty field has a comma, it is rewritten to the value. For
  the instance \<open>P1\<close> of \<open>People\<close>, the field \<open>Number of People Schedule Name\<close> holds text
  and gives no request, yet its line is rewritten with the value of \<open>Number of People\<close>,
  whose label occurs in its own.
\<close>

theorem empty_value_counterexample:
  "field_update example_env (ustr ''ZONE'') zone_obj 2 (ustr ''Other'') \<noteq> Inr []
   \<and> field_update example_env (ustr ''ZONE'') zone_obj 2 (ustr ''Other'')
       = Inr [\<lparr>item_type = ustr ''ZONE'', item_name = ustr ''Z1'', item_field = ustr ''Other'',
               item_value = 0\<rparr>]
   \<and> execute_modification example_env zone_idf zone_file_commented
        [\<lparr>object_type = ustr ''ZONE'', mod_fields = [ustr ''Other''], coef = 2\<rparr>]
       = Inr (1, zone_file_commented)
   \<and> execute_modification example_env zone_idf zone_file_other
        [\<lparr>object_type = ustr ''ZONE'', mod_fields = [ustr ''Other''], coef = 2\<rparr>]
       = Inr (1, ''ZONE,\<newline>  Z1,  !- Name\<newline>    0.0,  !- Other\<newline>  100;  !- Some Field\<newline>'')
   \<and> field_update example_env (ustr ''PEOPLE'') people_obj 2 (ustr ''Number of People Schedule Name'')
       = Inr []
   \<and> execute_modification example_env people_idf people_file
        [\<lparr>object_type = ustr ''PEOPLE'',
          mod_fields = [ustr ''Number of People Schedule Name'', ustr ''Number of People''], coef = 2\<rparr>]
       = Inr (1, ''People,\<newline>  P1,  !- Name\<newline>    20.0,  !- Number of People Schedule Name\<newline>  20.0;  !- Number of People\<newline>'')"
  by code_simp

text \<open>
  C7, amended. When the Update Set is built, a field whose current value is a string that
  is not empty and that \<open>float\<close> refuses gives no Update Request for that field of that
  instance, and the fields before and after it are processed as if it were not in the list:
  the requests, and with them the number returned, are the same. The field itself changes
  nothing in the document: where it gives no request on any instance of its type, the number
  returned and the document written are those of the same requests without the field; and a
  line is copied as it is whenever no pending label of the current instance occurs in the
  label of the line, so the text of the field is rewritten only through the pending label of
  another field. A field whose current value is the empty string is not skipped: it gives
  one request, whose value is \<open>0.0\<close> scaled.
\<close>

theorem nonnumeric_field_skipped:
  assumes "find_target_attr E (fieldnames obj) field = Some a" and "a \<noteq> []"
    and "attrs obj a = Some (PStr s)" and "s \<noteq> []" and "float_of_str E s = None"
    and "find_target_attr E (fieldnames obj') field' = Some a'" and "a' \<noteq> []"
    and "attrs obj' a' = Some (PStr [])"
    and "list_all (\<lambda>obj. field_update E (object_type m) obj (coef m) g = Inr [])
           (case idfobjects (object_type m) of None \<Rightarrow> [] | Some objs \<Rightarrow> objs)"
    and "mod_fields m = gpre @ g # gpost"
    and "matched_val (target_fields um (close_and_name E (open_block E um st line) line))
           (field_key_of E line) = None"
  shows "field_update E t obj c field = Inr []
     \<and> fields_loop E t obj c (fpre @ field # fpost) acc = fields_loop E t obj c (fpre @ fpost) acc
     \<and> field_update E t obj' c field'
         = Inr [\<lparr>item_type = t,
                 item_name = (case obj_name obj' of None \<Rightarrow> ustr ''N/A'' | Some n \<Rightarrow> n),
                 item_field = a', item_value = scale_round E (float_zero E) c\<rparr>]
     \<and> execute_modification E idfobjects source (mbefore @ m # mafter)
         = execute_modification E idfobjects source (mbefore @ m\<lparr>mod_fields := gpre @ gpost\<rparr> # mafter)
     \<and> fst (patch_line E um st line) = line \<and> \<not> snd (snd (patch_line E um st line))"
proof -
  have 1: "field_update E t obj c field = Inr []"
    using assms(1-5) by (rule field_update_text)
  from 1 have 2: "fields_loop E t obj c (fpre @ field # fpost) acc
                    = fields_loop E t obj c (fpre @ fpost) acc"
    by (rule fields_loop_skip)
  have 4: "execute_modification E idfobjects source (mbefore @ m # mafter)
         = execute_modification E idfobjects source (mbefore @ m\<lparr>mod_fields := gpre @ gpost\<rparr> # mafter)"
  proof -
    have "mods_loop E idfobjects (mbefore @ m # mafter) []
            = mods_loop E idfobjects (mbefore @ m\<lparr>mod_fields := gpre @ gpost\<rparr> # mafter) []"
      using assms(9,10) by (rule mods_loop_skip)
    then show ?thesis unfolding execute_modification_def by simp
  qed
  from 1 2 field_update_empty [OF assms(6-8), of t c] 4 patch_line_unmatched [OF assms(11)]
  show ?thesis by (intro conjI) blast+
qed

theorem nonnumeric_field_skipped_witness:
  "find_target_attr example_env (fieldnames zone_obj) (ustr ''Zone List'') = Some (ustr ''Zone_List'')
   \<and> ustr ''Zone_List'' \<noteq> []
   \<and> attrs zone_obj (ustr ''Zone_List'') = Some (PStr (ustr ''Core'')) \<and> ustr ''Core'' \<noteq> []
   \<and> float_of_str example_env (ustr ''Core'') = None
   \<and> find_target_attr example_env (fieldnames zone_obj) (ustr ''Other'') = Some (ustr ''Other'')
   \<and> ustr ''Other'' \<noteq> [] \<and> attrs zone_obj (ustr ''Other'') = Some (PStr [])
   \<and> list_all (\<lambda>obj. field_update example_env (ustr ''ZONE'') obj 2 (ustr ''Zone List'') = Inr [])
        (case zone_idf (ustr ''ZONE'') of None \<Rightarrow> [] | Some objs \<Rightarrow> objs)
   \<and> matched_val (target_fields
          (build_updates_map example_env
             [\<lparr>item_type = ustr ''ZONE'', item_name = ustr ''Z1'', item_field = ustr ''Some_Field'',
               item_value = 200\<rparr>,
              \<lparr>item_type = ustr ''ZONE'', item_name = ustr ''Z1'', item_field = ustr ''Other'',
               item_value = 0\<rparr>])
          (close_and_name example_env in_zone_z1 (ustr ''  Core,  !- Zone List'')))
        (field_key_of example_env (ustr ''  Core,  !- Zone List'')) = None
   \<and> field_update example_env (ustr ''ZONE'') zone_obj 2 (ustr ''Zone List'') = Inr []
   \<and> fields_loop example_env (ustr ''ZONE'') zone_obj 2
        ([ustr ''Some Field''] @ ustr ''Zone List'' # [ustr ''Other'']) []
       = fields_loop example_env (ustr ''ZONE'') zone_obj 2 ([ustr ''Some Field''] @ [ustr ''Other'']) []
   \<and> fields_loop example_env (ustr ''ZONE'') zone_obj 2 ([ustr ''Some Field''] @ [ustr ''Other'']) []
       = Inr [\<lparr>item_type = ustr ''ZONE'', item_name = ustr ''Z1'', item_field = ustr ''Some_Field'',
               item_value = 200\<rparr>,
              \<lparr>item_type = ustr ''ZONE'', item_name = ustr ''Z1'', item_field = ustr ''Other'',
               item_value = 0\<rparr>]
   \<and> execute_modification example_env zone_idf zone_file_commented
        ([] @ \<lparr>object_type = ustr ''ZONE'',
                mod_fields = [ustr ''Some Field'', ustr ''Zone List'', ustr ''Other''], coef = 2\<rparr> # [])
       = Inr (2, ''ZONE,\<newline>  Z1,  !- Name\<newline>  200.0,  !- Some Field\<newline>  Core,  !- Zone List\<newline>  ;  !- Other\<newline>'')
   \<and> fst (patch_line example_env
          (build_updates_map example_env
             [\<lparr>item_type = ustr ''ZONE'', item_name = ustr ''Z1'', item_field = ustr ''Some_Field'',
               item_value = 200\<rparr>,
              \<lparr>item_type = ustr ''ZONE'', item_name = ustr ''Z1'', item_field = ustr ''Other'',
               item_value = 0\<rparr>])
          in_zone_z1 (ustr ''  Core,  !- Zone List'')) = ustr ''  Core,  !- Zone List''"
proof -
  let ?m = "\<lparr>object_type = ustr ''ZONE'',
             mod_fields = [ustr ''Some Field'', ustr ''Zone List'', ustr ''Other''], coef = 2::int\<rparr>"
  let ?um = "build_updates_map example_env
             [\<lparr>item_type = ustr ''ZONE'', item_name = ustr ''Z1'', item_field = ustr ''Some_Field'',
               item_value = 200::int\<rparr>,
              \<lparr>item_type = ustr ''ZONE'', item_name = ustr ''Z1'', item_field = ustr ''Other'',
               item_value = 0\<rparr>]"
  let ?line = "ustr ''  Core,  !- Zone List''"
  have h1: "find_target_attr example_env (fieldnames zone_obj) (ustr ''Zone List'')
              = Some (ustr ''Zone_List'')" by code_simp
  have h2: "ustr ''Zone_List'' \<noteq> []" by code_simp
  have h3: "attrs zone_obj (ustr ''Zone_List'') = Some (PStr (ustr ''Core''))" by code_simp
  have h4: "ustr ''Core'' \<noteq> []" by code_simp
  have h5: "float_of_str example_env (ustr ''Core'') = None" by code_simp
  have h6: "find_target_attr example_env (fieldnames zone_obj) (ustr ''Other'') = Some (ustr ''Other'')"
    by code_simp
  have h7: "ustr ''Other'' \<noteq> []" by code_simp
  have h8: "attrs zone_obj (ustr ''Other'') = Some (PStr [])" by code_simp
  have l: "list_all (\<lambda>obj. field_update example_env (ustr ''ZONE'') obj 2 (ustr ''Zone List'') = Inr [])
        (case zone_idf (ustr ''ZONE'') of None \<Rightarrow> [] | Some objs \<Rightarrow> objs)"
    by code_simp
  then have h9: "list_all (\<lambda>obj. field_update example_env (object_type ?m) obj (coef ?m) (ustr ''Zone List'') = Inr [])
        (case zone_idf (object_type ?m) of None \<Rightarrow> [] | Some objs \<Rightarrow> objs)"
    by simp
  have h10: "mod_fields ?m = [ustr ''Some Field''] @ ustr ''Zone List'' # [ustr ''Other'']" by simp
  have o: "open_block example_env ?um in_zone_z1 ?line = in_zone_z1" by code_simp
  have n: "matched_val (target_fields ?um (close_and_name example_env in_zone_z1 ?line))
             (field_key_of example_env ?line) = None"
    by code_simp
  then have h11: "matched_val (target_fields ?um
             (close_and_name example_env (open_block example_env ?um in_zone_z1 ?line) ?line))
             (field_key_of example_env ?line) = None"
    unfolding o .
  have r: "fields_loop example_env (ustr ''ZONE'') zone_obj 2 ([ustr ''Some Field''] @ [ustr ''Other'']) []
       = Inr [\<lparr>item_type = ustr ''ZONE'', item_name = ustr ''Z1'', item_field = ustr ''Some_Field'',
               item_value = 200\<rparr>,
              \<lparr>item_type = ustr ''ZONE'', item_name = ustr ''Z1'', item_field = ustr ''Other'',
               item_value = 0\<rparr>]"
    by code_simp
  have x: "execute_modification example_env zone_idf zone_file_commented
             ([] @ ?m\<lparr>mod_fields := [ustr ''Some Field''] @ [ustr ''Other'']\<rparr> # [])
       = Inr (2, ''ZONE,\<newline>  Z1,  !- Name\<newline>  200.0,  !- Some Field\<newline>  Core,  !- Zone List\<newline>  ;  !- Other\<newline>'')"
    by code_simp
  note t = nonnumeric_field_skipped [where E = example_env and obj = zone_obj
      and field = "ustr ''Zone List''" and a = "ustr ''Zone_List''" and s = "ustr ''Core''"
      and obj' = zone_obj and field' = "ustr ''Other''" and a' = "ustr ''Other''"
      and m = ?m and g = "ustr ''Zone List''" and idfobjects = zone_idf
      and gpre = "[ustr ''Some Field'']" and gpost = "[ustr ''Other'']"
      and um = ?um and st = in_zone_z1 and line = ?line
      and t = "ustr ''ZONE''" and c = 2 and fpre = "[ustr ''Some Field'']"
      and fpost = "[ustr ''Other'']" and acc = "[]" and source = zone_file_commented
      and mbefore = "[]" and mafter = "[]", OF h1 h2 h3 h4 h5 h6 h7 h8 h9 h10 h11]
  from t have c1: "field_update example_env (ustr ''ZONE'') zone_obj 2 (ustr ''Zone List'') = Inr []"
    by blast
  from t have c2: "fields_loop example_env (ustr ''ZONE'') zone_obj 2
        ([ustr ''Some Field''] @ ustr ''Zone List'' # [ustr ''Other'']) []
       = fields_loop example_env (ustr ''ZONE'') zone_obj 2 ([ustr ''Some Field''] @ [ustr ''Other'']) []"
    by blast
  from t have "execute_modification example_env zone_idf zone_file_commented ([] @ ?m # [])
       = execute_modification example_env zone_idf zone_file_commented
             ([] @ ?m\<lparr>mod_fields := [ustr ''Some Field''] @ [ustr ''Other'']\<rparr> # [])"
    by blast
  from this x have c4: "execute_modification example_env zone_idf zone_file_commented ([] @ ?m # [])
       = Inr (2, ''ZONE,\<newline>  Z1,  !- Name\<newline>  200.0,  !- Some Field\<newline>  Core,  !- Zone List\<newline>  ;  !- Other\<newline>'')"
    by (rule trans)
  from t have c5: "fst (patch_line example_env ?um in_zone_z1 ?line) = ?line" by blast
  from h1 h2 h3 h4 h5 h6 h7 h8 l n c1 c2 r c4 c5 show ?thesis by (intro conjI)
qed

section \<open>The number returned\<close>

text \<open>
  C1. \<open>execute_modification\<close> returns the length of \<open>target_updates\<close>, the requests it
  built, and \<open>_save_with_text_replacement\<close> reports nothing back. For the zone \<open>Z1\<close> and the
  fields \<open>Some Field\<close>, \<open>Zone List\<close> and \<open>Other\<close>, on the commented source file, it returns 2
  while one line is substituted (the request for the empty field \<open>Other\<close> meets a line with
  no number and no comma); on the source file without comments, the request for \<open>Some Field\<close>
  makes it return 1 while no line is substituted and the output is the input.
\<close>

theorem returned_count_is_request_count:
  "execute_modification example_env zone_idf zone_file_commented
     [\<lparr>object_type = ustr ''ZONE'',
       mod_fields = [ustr ''Some Field'', ustr ''Zone List'', ustr ''Other''], coef = 2\<rparr>]
     = Inr (2, ''ZONE,\<newline>  Z1,  !- Name\<newline>  200.0,  !- Some Field\<newline>  Core,  !- Zone List\<newline>  ;  !- Other\<newline>'')
   \<and> substitutions example_env
       [\<lparr>item_type = ustr ''ZONE'', item_name = ustr ''Z1'', item_field = ustr ''Some_Field'',
         item_value = 200\<rparr>,
        \<lparr>item_type = ustr ''ZONE'', item_name = ustr ''Z1'', item_field = ustr ''Other'',
         item_value = 0\<rparr>]
       (snd (read_source zone_file_commented)) = 1
   \<and> execute_modification example_env zone_idf zone_file_plain
       [\<lparr>object_type = ustr ''ZONE'', mod_fields = [ustr ''Some Field''], coef = 2\<rparr>]
     = Inr (1, zone_file_plain)
   \<and> substitutions example_env
       [\<lparr>item_type = ustr ''ZONE'', item_name = ustr ''Z1'', item_field = ustr ''Some_Field'',
         item_value = 200\<rparr>]
       (snd (read_source zone_file_plain)) = 0"
  by code_simp

end
